theory Spec2Isabelle
  imports Complex_Main
begin

section \<open>Numeric model and constants\<close>

text \<open>
  The program is a single C++ translation unit (\<^verbatim>\<open>main.cpp\<close>). Its \<^verbatim>\<open>float\<close> and
  \<^verbatim>\<open>double\<close> quantities are modelled as \<^typ>\<open>real\<close>: rounding, overflow to infinity
  and NaN are not modelled, and the conversions \<^verbatim>\<open>float(...)\<close>,
  \<^verbatim>\<open>static_cast<float>(...)\<close> are the identity. Its \<^verbatim>\<open>int\<close> quantities are small
  (at most a few hundred) and are modelled as \<^typ>\<open>int\<close> or \<^typ>\<open>nat\<close>.
  \<^verbatim>\<open>glm::vec3\<close> and \<^verbatim>\<open>glm::vec4\<close> are tuples of reals.
\<close>

type_synonym vec3 = "real \<times> real \<times> real"
type_synonym vec4 = "real \<times> real \<times> real \<times> real"

definition PI :: real where
  "PI = pi"

definition C :: real where
  "C = 299792458"

definition G :: real where
  "G = 6.67430 / 10 ^ 11"

text \<open>The constants of the GLFW header that the input handlers compare against.\<close>

definition GLFW_RELEASE :: int where
  "GLFW_RELEASE = 0"

definition GLFW_PRESS :: int where
  "GLFW_PRESS = 1"

definition GLFW_MOUSE_BUTTON_LEFT :: int where
  "GLFW_MOUSE_BUTTON_LEFT = 0"

definition GLFW_MOUSE_BUTTON_RIGHT :: int where
  "GLFW_MOUSE_BUTTON_RIGHT = 1"

definition GLFW_MOUSE_BUTTON_MIDDLE :: int where
  "GLFW_MOUSE_BUTTON_MIDDLE = 2"

definition GLFW_KEY_G :: int where
  "GLFW_KEY_G = 71"

subsection \<open>Vector operations of glm used by the program\<close>

definition vec3_add :: "vec3 \<Rightarrow> vec3 \<Rightarrow> vec3" where
  "vec3_add a b = (case a of (ax, ay, az) \<Rightarrow> case b of (bx, by, bz) \<Rightarrow> (ax + bx, ay + by, az + bz))"

definition vec3_sub :: "vec3 \<Rightarrow> vec3 \<Rightarrow> vec3" where
  "vec3_sub a b = (case a of (ax, ay, az) \<Rightarrow> case b of (bx, by, bz) \<Rightarrow> (ax - bx, ay - by, az - bz))"

definition vec3_scale :: "vec3 \<Rightarrow> real \<Rightarrow> vec3" where
  "vec3_scale a k = (case a of (ax, ay, az) \<Rightarrow> (ax * k, ay * k, az * k))"

definition vec3_div :: "vec3 \<Rightarrow> real \<Rightarrow> vec3" where
  "vec3_div a k = (case a of (ax, ay, az) \<Rightarrow> (ax / k, ay / k, az / k))"

definition glm_length :: "vec3 \<Rightarrow> real" where
  "glm_length a = (case a of (ax, ay, az) \<Rightarrow> sqrt (ax * ax + ay * ay + az * az))"

text \<open>\<^verbatim>\<open>vec3(v)\<close> of a \<^verbatim>\<open>vec4\<close> keeps its first three components;
  \<^verbatim>\<open>vec4(v, w)\<close> appends a fourth.\<close>

definition vec3_of :: "vec4 \<Rightarrow> vec3" where
  "vec3_of p = (case p of (x, y, z, w) \<Rightarrow> (x, y, z))"

definition vec4_of :: "vec3 \<Rightarrow> real \<Rightarrow> vec4" where
  "vec4_of v w = (case v of (x, y, z) \<Rightarrow> (x, y, z, w))"

definition vec4_add :: "vec4 \<Rightarrow> vec4 \<Rightarrow> vec4" where
  "vec4_add a b =
     (case a of (ax, ay, az, aw) \<Rightarrow> case b of (bx, by, bz, bw) \<Rightarrow> (ax + bx, ay + by, az + bz, aw + bw))"

text \<open>\<^verbatim>\<open>std::clamp(v, lo, hi)\<close> and \<^verbatim>\<open>glm::clamp(x, minVal, maxVal)\<close>.\<close>

definition std_clamp :: "real \<Rightarrow> real \<Rightarrow> real \<Rightarrow> real" where
  "std_clamp v lo hi = (if v < lo then lo else if hi < v then hi else v)"

definition glm_clamp :: "real \<Rightarrow> real \<Rightarrow> real \<Rightarrow> real" where
  "glm_clamp x minVal maxVal = min (max x minVal) maxVal"

section \<open>The orbit camera\<close>

record Camera =
  target :: vec3
  radius :: real
  minRadius :: real
  maxRadius :: real
  azimuth :: real
  elevation :: real
  orbitSpeed :: real
  panSpeed :: real
  zoomSpeed :: real
  dragging :: bool
  panning :: bool
  moving :: bool
  lastX :: real
  lastY :: real

text \<open>The default member initialisers of \<^verbatim>\<open>struct Camera\<close>.\<close>

definition camera_init :: Camera where
  "camera_init = \<lparr> target = (0, 0, 0), radius = 138000000000,
     minRadius = 10000000000, maxRadius = 1000000000000,
     azimuth = - 2.35, elevation = 1.5,
     orbitSpeed = 0.01, panSpeed = 0.01, zoomSpeed = 25000000000,
     dragging = False, panning = False, moving = False,
     lastX = 0, lastY = 0 \<rparr>"

definition position :: "Camera \<Rightarrow> vec3" where
  "position c =
     (let clampedElevation = std_clamp (elevation c) 0.01 (PI - 0.01)
      in (radius c * sin clampedElevation * cos (azimuth c),
          radius c * cos clampedElevation,
          radius c * sin clampedElevation * sin (azimuth c)))"

definition update :: "Camera \<Rightarrow> Camera" where
  "update c = c\<lparr>moving := (dragging c \<or> panning c)\<rparr>"

definition processMouseMove :: "real \<Rightarrow> real \<Rightarrow> Camera \<Rightarrow> Camera" where
  "processMouseMove x y c =
     (let dx = x - lastX c;
          dy = y - lastY c;
          c1 = (if dragging c \<and> panning c then c
                else if dragging c \<and> \<not> panning c then
                  (let ca = c\<lparr>azimuth := azimuth c + dx * orbitSpeed c\<rparr>;
                       ce = ca\<lparr>elevation := elevation ca - dy * orbitSpeed ca\<rparr>
                   in ce\<lparr>elevation := std_clamp (elevation ce) 0.01 (PI - 0.01)\<rparr>)
                else c);
          c2 = c1\<lparr>lastX := x, lastY := y\<rparr>
      in update c2)"

definition processScroll :: "real \<Rightarrow> real \<Rightarrow> Camera \<Rightarrow> Camera" where
  "processScroll xoffset yoffset c =
     (let c1 = c\<lparr>radius := radius c - yoffset * zoomSpeed c\<rparr>;
          c2 = c1\<lparr>radius := glm_clamp (radius c1) (minRadius c1) (maxRadius c1)\<rparr>
      in update c2)"

section \<open>Bodies\<close>

record BlackHole =
  bh_position :: vec3
  bh_mass :: real
  bh_r_s :: real

text \<open>The constructor \<^verbatim>\<open>BlackHole(vec3 pos, float m)\<close>; the member \<^verbatim>\<open>radius\<close> is
  never written or read and is left out.\<close>

definition BlackHole_new :: "vec3 \<Rightarrow> real \<Rightarrow> BlackHole" where
  "BlackHole_new pos m = \<lparr> bh_position = pos, bh_mass = m, bh_r_s = 2.0 * G * m / (C * C) \<rparr>"

definition SagA :: BlackHole where
  "SagA = BlackHole_new (0, 0, 0) (854 * 10 ^ 34)"

record ObjectData =
  posRadius :: vec4
  color :: vec4
  mass :: real
  velocity :: vec3

definition objects_init :: "ObjectData list" where
  "objects_init =
     [ \<lparr> posRadius = (400000000000, 0, 0, 40000000000), color = (1, 1, 0, 1),
         mass = 198892 * 10 ^ 25, velocity = (0, 0, 0) \<rparr>,
       \<lparr> posRadius = (0, 0, 400000000000, 40000000000), color = (1, 0, 0, 1),
         mass = 198892 * 10 ^ 25, velocity = (0, 0, 0) \<rparr>,
       \<lparr> posRadius = (0, 0, 0, bh_r_s SagA), color = (0, 0, 0, 1),
         mass = bh_mass SagA, velocity = (0, 0, 0) \<rparr> ]"

section \<open>Program state, input events and the frame loop\<close>

text \<open>The globals \<^verbatim>\<open>camera\<close>, \<^verbatim>\<open>g_gravity\<close> and \<^verbatim>\<open>objects\<close>.\<close>

record State =
  camera :: Camera
  g_gravity :: bool
  objects :: "ObjectData list"

definition state_init :: State where
  "state_init = \<lparr> camera = camera_init, g_gravity = False, objects = objects_init \<rparr>"

text \<open>
  \<^verbatim>\<open>Camera::processMouseButton\<close>. The call \<^verbatim>\<open>glfwGetCursorPos(win, &lastX, &lastY)\<close>
  reads the cursor position from the window system; it is passed in as \<open>cx\<close>, \<open>cy\<close>.
  The method does not call \<^verbatim>\<open>update()\<close>.
\<close>

definition processMouseButton :: "int \<Rightarrow> int \<Rightarrow> int \<Rightarrow> real \<Rightarrow> real \<Rightarrow> State \<Rightarrow> State" where
  "processMouseButton button action mods cx cy s =
     (let s1 = (if button = GLFW_MOUSE_BUTTON_LEFT \<or> button = GLFW_MOUSE_BUTTON_MIDDLE then
                  (if action = GLFW_PRESS then
                     s\<lparr>camera := (camera s)\<lparr>dragging := True, panning := False, lastX := cx, lastY := cy\<rparr>\<rparr>
                   else if action = GLFW_RELEASE then
                     s\<lparr>camera := (camera s)\<lparr>dragging := False, panning := False\<rparr>\<rparr>
                   else s)
                else s)
      in (if button = GLFW_MOUSE_BUTTON_RIGHT then
            (if action = GLFW_PRESS then s1\<lparr>g_gravity := True\<rparr>
             else if action = GLFW_RELEASE then s1\<lparr>g_gravity := False\<rparr>
             else s1)
          else s1))"

text \<open>\<^verbatim>\<open>Camera::processKey\<close>; the line printed to \<^verbatim>\<open>std::cout\<close> is not modelled.\<close>

definition processKey :: "int \<Rightarrow> int \<Rightarrow> int \<Rightarrow> int \<Rightarrow> State \<Rightarrow> State" where
  "processKey key scancode action mods s =
     (if action = GLFW_PRESS \<and> key = GLFW_KEY_G then s\<lparr>g_gravity := \<not> g_gravity s\<rparr> else s)"

text \<open>The four callbacks installed by \<^verbatim>\<open>setupCameraCallbacks\<close>, as one event type.\<close>

datatype Event =
    MouseButtonEvent int int int real real
  | CursorPosEvent real real
  | ScrollEvent real real
  | KeyEvent int int int int

fun handle_event :: "Event \<Rightarrow> State \<Rightarrow> State" where
  "handle_event (MouseButtonEvent button action mods cx cy) s = processMouseButton button action mods cx cy s"
| "handle_event (CursorPosEvent x y) s = s\<lparr>camera := processMouseMove x y (camera s)\<rparr>"
| "handle_event (ScrollEvent xoffset yoffset) s = s\<lparr>camera := processScroll xoffset yoffset (camera s)\<rparr>"
| "handle_event (KeyEvent key scancode action mods) s = processKey key scancode action mods s"

definition handle_events :: "Event list \<Rightarrow> State \<Rightarrow> State" where
  "handle_events evs s = fold handle_event evs s"

section \<open>The N-body integrator of the frame loop\<close>

text \<open>
  The body of the inner loop of \<^verbatim>\<open>main\<close> for a pair \<open>obj\<close>, \<open>obj2\<close> of distinct
  bodies: the acceleration that \<open>obj2\<close> adds to \<^verbatim>\<open>totalAcc\<close> of \<open>obj\<close>.
\<close>

definition accumulate :: "ObjectData \<Rightarrow> ObjectData \<Rightarrow> vec3 \<Rightarrow> vec3" where
  "accumulate obj obj2 totalAcc =
     (let delta = vec3_sub (vec3_of (posRadius obj2)) (vec3_of (posRadius obj));
          distance = glm_length delta
      in if distance > 0 then
           (let direction = vec3_div delta distance;
                force = (G * mass obj * mass obj2) / (distance * distance)
            in vec3_add totalAcc (vec3_scale direction (force / mass obj)))
         else totalAcc)"

text \<open>
  The inner loop runs over all bodies and skips the one at the same address
  (\<^verbatim>\<open>&obj == &obj2\<close>), which is the one at the same index.
\<close>

definition total_acc :: "nat \<Rightarrow> ObjectData list \<Rightarrow> vec3" where
  "total_acc i objs =
     fold (\<lambda>j totalAcc. if j = i then totalAcc else accumulate (objs ! i) (objs ! j) totalAcc)
       [0..<length objs] (0, 0, 0)"

text \<open>
  The last two statements of the outer loop body: \<^verbatim>\<open>obj.velocity += totalAcc\<close>, then
  \<^verbatim>\<open>obj.posRadius += vec4(obj.velocity, 0.0f)\<close> with the new velocity.
\<close>

definition advance :: "ObjectData \<Rightarrow> vec3 \<Rightarrow> ObjectData" where
  "advance obj totalAcc =
     (let obj1 = obj\<lparr>velocity := vec3_add (velocity obj) totalAcc\<rparr>
      in obj1\<lparr>posRadius := vec4_add (posRadius obj1) (vec4_of (velocity obj1) 0)\<rparr>)"

text \<open>
  One iteration of the outer loop. The body is updated in place, so the bodies
  processed later already see its new position.
\<close>

definition step_body :: "nat \<Rightarrow> ObjectData list \<Rightarrow> ObjectData list" where
  "step_body i objs = objs[i := advance (objs ! i) (total_acc i objs)]"

definition gravity_step :: "ObjectData list \<Rightarrow> ObjectData list" where
  "gravity_step objs = fold step_body [0..<length objs] objs"

text \<open>The part of one pass of the main loop that changes the globals.\<close>

definition frame :: "State \<Rightarrow> State" where
  "frame s = (if g_gravity s then s\<lparr>objects := gravity_step (objects s)\<rparr> else s)"

section \<open>The curvature grid\<close>

definition gridSize :: nat where
  "gridSize = 25"

definition spacing :: real where
  "spacing = 10000000000"

text \<open>
  The two branches of the warp of \<^verbatim>\<open>generateGrid\<close> as a function of the
  Schwarzschild radius and the planar distance: what one body adds to \<open>y\<close>.
\<close>

definition displacement :: "real \<Rightarrow> real \<Rightarrow> real" where
  "displacement r_s dist' =
     (if dist' > r_s then
        (let deltaY = 2.0 * sqrt (r_s * (dist' - r_s)) in deltaY - 30000000000)
      else 2.0 * sqrt (r_s * r_s) - 30000000000)"

definition warp :: "ObjectData \<Rightarrow> real \<Rightarrow> real \<Rightarrow> real \<Rightarrow> real" where
  "warp obj worldX worldZ y =
     (case vec3_of (posRadius obj) of (objPos_x, objPos_y, objPos_z) \<Rightarrow>
        (let r_s = 2.0 * G * mass obj / (C * C);
             dx = worldX - objPos_x;
             dz = worldZ - objPos_z;
             dist' = sqrt (dx * dx + dz * dz)
         in y + displacement r_s dist'))"

text \<open>
  The loop counters run over \<open>0..gs\<close>; \<^verbatim>\<open>x - gridSize / 2\<close> is a subtraction of
  \<^verbatim>\<open>int\<close>s with the division truncating.
\<close>

definition world_coord :: "nat \<Rightarrow> nat \<Rightarrow> real" where
  "world_coord gs x = real_of_int (int x - int gs div 2) * spacing"

definition grid_vertex :: "nat \<Rightarrow> ObjectData list \<Rightarrow> nat \<Rightarrow> nat \<Rightarrow> vec3" where
  "grid_vertex gs objs z x =
     (let worldX = world_coord gs x;
          worldZ = world_coord gs z;
          y = fold (\<lambda>obj y. warp obj worldX worldZ y) objs 0
      in (worldX, y, worldZ))"

definition grid_vertices :: "nat \<Rightarrow> ObjectData list \<Rightarrow> vec3 list" where
  "grid_vertices gs objs =
     concat (map (\<lambda>z. map (\<lambda>x. grid_vertex gs objs z x) [0..<Suc gs]) [0..<Suc gs])"

definition grid_indices :: "nat \<Rightarrow> nat list" where
  "grid_indices gs =
     concat (map (\<lambda>z. concat (map (\<lambda>x.
         (let i = z * (gs + 1) + x in [i, i + 1, i, i + gs + 1])) [0..<gs])) [0..<gs])"

text \<open>\<^verbatim>\<open>Engine::generateGrid\<close>: the vertex and the index buffer it uploads.\<close>

definition generateGrid :: "ObjectData list \<Rightarrow> vec3 list \<times> nat list" where
  "generateGrid objs = (grid_vertices gridSize objs, grid_indices gridSize)"

section \<open>The compute dispatch\<close>

record Engine =
  WIDTH :: int
  HEIGHT :: int
  COMPUTE_WIDTH :: int
  COMPUTE_HEIGHT :: int

definition engine_init :: Engine where
  "engine_init = \<lparr> WIDTH = 800, HEIGHT = 600, COMPUTE_WIDTH = 200, COMPUTE_HEIGHT = 150 \<rparr>"

text \<open>
  The target resolution of \<^verbatim>\<open>Engine::dispatchCompute\<close>, the size passed to
  \<^verbatim>\<open>glTexImage2D\<close>.
\<close>

definition compute_resolution :: "Engine \<Rightarrow> Camera \<Rightarrow> int \<times> int" where
  "compute_resolution e cam =
     (let cw = (if moving cam then COMPUTE_WIDTH e else 200);
          ch = (if moving cam then COMPUTE_HEIGHT e else 150)
      in (cw, ch))"

text \<open>The work-group counts passed to \<^verbatim>\<open>glDispatchCompute\<close>.\<close>

definition dispatch_groups :: "Engine \<Rightarrow> Camera \<Rightarrow> int \<times> int" where
  "dispatch_groups e cam =
     (case compute_resolution e cam of (cw, ch) \<Rightarrow>
        (let workGroupSize = (16 :: real)
         in (\<lceil>real_of_int cw / workGroupSize\<rceil>, \<lceil>real_of_int ch / workGroupSize\<rceil>)))"

text \<open>The movement flag that \<^verbatim>\<open>uploadCameraUBO\<close> writes to the camera block.\<close>

definition uploadCameraUBO_moving :: "Camera \<Rightarrow> bool" where
  "uploadCameraUBO_moving cam = (dragging cam \<or> panning cam)"

text \<open>
  The local \<^verbatim>\<open>UBOData\<close> of \<^verbatim>\<open>uploadObjectsUBO\<close>: a count and three arrays of 16
  entries. The struct is not initialised, so the function is modelled on the contents
  \<open>data0\<close> that the struct happens to hold before the loop writes to it.
\<close>

record ObjectsUBO =
  numObjects :: int
  ubo_posRadius :: "vec4 list"
  ubo_color :: "vec4 list"
  ubo_mass :: "real list"

text \<open>The body of the copy loop, for the index \<open>i\<close>.\<close>

definition upload_entry :: "ObjectData list \<Rightarrow> nat \<Rightarrow> ObjectsUBO \<Rightarrow> ObjectsUBO" where
  "upload_entry objs i d =
     d\<lparr>ubo_posRadius := (ubo_posRadius d)[i := posRadius (objs ! i)],
       ubo_color := (ubo_color d)[i := color (objs ! i)],
       ubo_mass := (ubo_mass d)[i := mass (objs ! i)]\<rparr>"

definition uploadObjectsUBO :: "ObjectData list \<Rightarrow> ObjectsUBO \<Rightarrow> ObjectsUBO" where
  "uploadObjectsUBO objs data0 =
     (let count = min (length objs) 16;
          data1 = data0\<lparr>numObjects := int count\<rparr>
      in fold (upload_entry objs) [0..<count] data1)"

text \<open>
  \<^verbatim>\<open>drawGrid\<close> draws the index buffer with \<^verbatim>\<open>GL_LINES\<close>: every two consecutive
  indices are the end points of one segment.
\<close>

fun line_segments :: "nat list \<Rightarrow> (nat \<times> nat) list" where
  "line_segments (a # b # rest) = (a, b) # line_segments rest"
| "line_segments rest = []"

text \<open>The planar world coordinates \<open>(x, z)\<close> of the points of a vertex buffer.\<close>

definition planar_points :: "vec3 list \<Rightarrow> (real \<times> real) set" where
  "planar_points vs = (\<lambda>v. case v of (x, y, z) \<Rightarrow> (x, z)) ` set vs"

text \<open>
  A test scene: two bodies of the same mass \<open>m\<close> and display radius \<open>rad\<close> at rest, at
  \<open>p\<close> and at \<open>-p\<close>.
\<close>

definition symmetric_pair :: "vec3 \<Rightarrow> real \<Rightarrow> real \<Rightarrow> ObjectData list" where
  "symmetric_pair p m rad =
     [ \<lparr> posRadius = vec4_of p rad, color = (1, 1, 1, 1), mass = m, velocity = (0, 0, 0) \<rparr>,
       \<lparr> posRadius = vec4_of (vec3_scale p (- 1)) rad, color = (1, 1, 1, 1), mass = m,
         velocity = (0, 0, 0) \<rparr> ]"

text \<open>
  The acceleration contribution as the specification words it (section 4.3): for the
  displacement from body \<open>i\<close> to body \<open>j\<close> and its Euclidean norm \<open>d\<close>, if \<open>d > 0\<close> the
  contribution to body \<open>i\<close> is \<open>(G * j.mass / d\<^sup>2) * unit(displacement)\<close>, and there is none
  otherwise.
\<close>

definition spec_acceleration :: "vec3 \<Rightarrow> vec3 \<Rightarrow> real \<Rightarrow> vec3" where
  "spec_acceleration pos_i pos_j mass_j =
     (let displacement = vec3_sub pos_j pos_i;
          d = glm_length displacement
      in if d > 0 then vec3_scale (vec3_div displacement d) (G * mass_j / (d * d)) else (0, 0, 0))"

text \<open>The sum of the vectors \<open>f j\<close> over the indices \<open>j\<close> of a finite set.\<close>

definition vec3_sum :: "(nat \<Rightarrow> vec3) \<Rightarrow> nat set \<Rightarrow> vec3" where
  "vec3_sum f A = (\<Sum>j\<in>A. fst (f j), \<Sum>j\<in>A. fst (snd (f j)), \<Sum>j\<in>A. snd (snd (f j)))"

text \<open>
  A test scene of 20 bodies of mass \<open>10\<^sup>8\<close> at rest: eighteen at the origin, the
  nineteenth at \<open>(-1, 0, 0)\<close> and the twentieth at \<open>(1, 0, 0)\<close>.
\<close>

definition twenty_bodies :: "ObjectData list" where
  "twenty_bodies =
     replicate 18 \<lparr> posRadius = (0, 0, 0, 1), color = (1, 1, 1, 1), mass = 100000000, velocity = (0, 0, 0) \<rparr>
     @ [ \<lparr> posRadius = (- 1, 0, 0, 1), color = (1, 1, 1, 1), mass = 100000000, velocity = (0, 0, 0) \<rparr>,
         \<lparr> posRadius = (1, 0, 0, 1), color = (1, 1, 1, 1), mass = 100000000, velocity = (0, 0, 0) \<rparr> ]"

section \<open>Invariants used in the proofs\<close>

definition cam_ok :: "Camera \<Rightarrow> bool" where
  "cam_ok c = (0.01 \<le> elevation c \<and> elevation c \<le> PI - 0.01 \<and> 0 < radius c
     \<and> 0 < minRadius c \<and> 0 < maxRadius c \<and> target c = (0, 0, 0))"

section \<open>The camera: input handlers\<close>

subsection \<open>The movement flag\<close>

lemma processMouseMove_moving:
  "moving (processMouseMove x y c) = (dragging (processMouseMove x y c) \<or> panning (processMouseMove x y c))"
  by (simp add: processMouseMove_def update_def Let_def)

lemma processScroll_moving:
  "moving (processScroll xoffset yoffset c) = (dragging (processScroll xoffset yoffset c) \<or> panning (processScroll xoffset yoffset c))"
  by (simp add: processScroll_def update_def Let_def)

text \<open>
  C4: every camera input mutator recomputes \<open>moving = dragging \<or> panning\<close> as its last
  step, so the flag equals \<open>dragging \<or> panning\<close> after any single input event.
  \<^verbatim>\<open>processMouseMove\<close> and \<^verbatim>\<open>processScroll\<close> do end in \<^verbatim>\<open>update()\<close> (the two lemmas
  above), but \<^verbatim>\<open>processMouseButton\<close>, the only handler that writes \<open>dragging\<close>, does
  not: a left-button press in the initial state sets \<open>dragging\<close> and leaves \<open>moving\<close>
  false, while the flag that \<^verbatim>\<open>uploadCameraUBO\<close> computes from the same camera is true.
\<close>

theorem processMouseButton_leaves_moving_stale:
  "dragging (camera (processMouseButton GLFW_MOUSE_BUTTON_LEFT GLFW_PRESS 0 0 0 state_init)) = True
   \<and> panning (camera (processMouseButton GLFW_MOUSE_BUTTON_LEFT GLFW_PRESS 0 0 0 state_init)) = False
   \<and> moving (camera (processMouseButton GLFW_MOUSE_BUTTON_LEFT GLFW_PRESS 0 0 0 state_init)) = False
   \<and> uploadCameraUBO_moving (camera (processMouseButton GLFW_MOUSE_BUTTON_LEFT GLFW_PRESS 0 0 0 state_init)) = True"
  by (simp add: processMouseButton_def state_init_def camera_init_def Let_def uploadCameraUBO_moving_def
      GLFW_MOUSE_BUTTON_LEFT_def GLFW_PRESS_def GLFW_MOUSE_BUTTON_RIGHT_def)

subsection \<open>The gravity flag\<close>

text \<open>
  C5 as stated (a right-button press toggles the gravity flag and the release leaves it
  unchanged) fails: in the state reached from the initial one by a G key press the flag is
  on; a right-button press there leaves it on and the release switches it off.
\<close>

theorem right_button_is_not_a_toggle:
  "g_gravity (handle_event (KeyEvent GLFW_KEY_G 0 GLFW_PRESS 0) state_init) = True
   \<and> g_gravity (handle_event (MouseButtonEvent GLFW_MOUSE_BUTTON_RIGHT GLFW_PRESS 0 0 0)
        (handle_event (KeyEvent GLFW_KEY_G 0 GLFW_PRESS 0) state_init)) = True
   \<and> g_gravity (handle_event (MouseButtonEvent GLFW_MOUSE_BUTTON_RIGHT GLFW_RELEASE 0 0 0)
        (handle_event (KeyEvent GLFW_KEY_G 0 GLFW_PRESS 0) state_init)) = False"
  by (simp add: processMouseButton_def processKey_def state_init_def Let_def
      GLFW_MOUSE_BUTTON_LEFT_def GLFW_PRESS_def GLFW_RELEASE_def GLFW_MOUSE_BUTTON_RIGHT_def
      GLFW_MOUSE_BUTTON_MIDDLE_def GLFW_KEY_G_def)

text \<open>
  C5, amended: the right button is a momentary switch: its press event sets the gravity
  flag and its release event clears it, whatever the flag was before; a G key press
  toggles the flag. None of the three changes the camera or the bodies.
\<close>

theorem gravity_flag_events:
  "processMouseButton GLFW_MOUSE_BUTTON_RIGHT GLFW_PRESS mods cx cy s = s\<lparr>g_gravity := True\<rparr>
   \<and> processMouseButton GLFW_MOUSE_BUTTON_RIGHT GLFW_RELEASE mods cx cy s = s\<lparr>g_gravity := False\<rparr>
   \<and> processKey GLFW_KEY_G scancode GLFW_PRESS kmods s = s\<lparr>g_gravity := \<not> g_gravity s\<rparr>"
  by (simp add: processMouseButton_def processKey_def Let_def
      GLFW_MOUSE_BUTTON_LEFT_def GLFW_PRESS_def GLFW_RELEASE_def GLFW_MOUSE_BUTTON_RIGHT_def
      GLFW_MOUSE_BUTTON_MIDDLE_def)

subsection \<open>Elevation and position\<close>

lemma std_clamp_range: "lo \<le> hi \<Longrightarrow> lo \<le> std_clamp v lo hi \<and> std_clamp v lo hi \<le> hi"
  by (simp add: std_clamp_def)

lemma glm_clamp_pos: "0 < lo \<Longrightarrow> 0 < hi \<Longrightarrow> 0 < glm_clamp x lo hi"
  by (simp add: glm_clamp_def)

lemma elevation_bounds_ordered: "(0.01::real) \<le> PI - 0.01"
  using pi_ge_two by (simp add: PI_def)

lemma cam_ok_init: "cam_ok camera_init"
  using pi_ge_two by (simp add: cam_ok_def camera_init_def PI_def)

lemma cam_ok_processMouseMove: "cam_ok c \<Longrightarrow> cam_ok (processMouseMove x y c)"
  using std_clamp_range [OF elevation_bounds_ordered]
  by (simp add: cam_ok_def processMouseMove_def update_def Let_def)

lemma cam_ok_processScroll: "cam_ok c \<Longrightarrow> cam_ok (processScroll x y c)"
  by (simp add: cam_ok_def processScroll_def update_def Let_def glm_clamp_pos)

lemma cam_ok_processMouseButton: "cam_ok (camera s) \<Longrightarrow> cam_ok (camera (processMouseButton b a m cx cy s))"
  by (simp add: cam_ok_def processMouseButton_def Let_def)

lemma cam_ok_processKey: "cam_ok (camera s) \<Longrightarrow> cam_ok (camera (processKey k sc a m s))"
  by (simp add: cam_ok_def processKey_def)

lemma cam_ok_handle_event: "cam_ok (camera s) \<Longrightarrow> cam_ok (camera (handle_event e s))"
  by (cases e) (simp_all add: cam_ok_processMouseMove cam_ok_processScroll cam_ok_processMouseButton cam_ok_processKey)

lemma cam_ok_handle_events: "cam_ok (camera s) \<Longrightarrow> cam_ok (camera (handle_events evs s))"
  unfolding handle_events_def
  by (induction evs arbitrary: s) (simp_all add: cam_ok_handle_event)

lemma unit_sphere_algebra:
  fixes r s c ca sa :: real
  assumes e: "c * c + s * s = 1" and a: "ca * ca + sa * sa = 1"
  shows "(r * s * ca) * (r * s * ca) + (r * c) * (r * c) + (r * s * sa) * (r * s * sa) = r * r"
proof -
  have "(r * s * ca) * (r * s * ca) + (r * c) * (r * c) + (r * s * sa) * (r * s * sa)
      = r * r * ((s * s) * (ca * ca + sa * sa) + c * c)"
    by (simp add: algebra_simps)
  also have "\<dots> = r * r * (c * c + s * s)"
    by (simp add: a)
  also have "\<dots> = r * r"
    by (simp add: e)
  finally show ?thesis .
qed

lemma spherical_unit: "(r * sin e * cos a) * (r * sin e * cos a) + (r * cos e) * (r * cos e)
     + (r * sin e * sin a) * (r * sin e * sin a) = r * (r::real)"
  by (rule unit_sphere_algebra) (rule sin_cos_squared_add3)+

lemma position_length: "target c = (0, 0, 0) \<Longrightarrow> glm_length (vec3_sub (position c) (target c)) = \<bar>radius c\<bar>"
  by (simp add: glm_length_def vec3_sub_def position_def Let_def spherical_unit)

text \<open>
  C9: after every sequence of input events from the initial state the elevation lies in
  \<open>[0.01, PI - 0.01]\<close>, the radius is positive, the vector from the target to
  \<^verbatim>\<open>position()\<close> has length \<open>radius\<close>, and so the position never equals the target.
\<close>

theorem elevation_invariant:
  "0.01 \<le> elevation (camera (handle_events evs state_init))
   \<and> elevation (camera (handle_events evs state_init)) \<le> PI - 0.01
   \<and> 0 < radius (camera (handle_events evs state_init))
   \<and> glm_length (vec3_sub (position (camera (handle_events evs state_init)))
        (target (camera (handle_events evs state_init)))) = radius (camera (handle_events evs state_init))
   \<and> position (camera (handle_events evs state_init)) \<noteq> target (camera (handle_events evs state_init))"
proof -
  let ?c = "camera (handle_events evs state_init)"
  have ok: "cam_ok ?c"
    by (rule cam_ok_handle_events) (simp add: state_init_def cam_ok_init)
  then have len: "glm_length (vec3_sub (position ?c) (target ?c)) = radius ?c"
    using position_length [of ?c] by (simp add: cam_ok_def)
  have "position ?c \<noteq> target ?c"
  proof
    assume "position ?c = target ?c"
    then have "glm_length (vec3_sub (position ?c) (target ?c)) = 0"
      using ok by (simp add: glm_length_def vec3_sub_def cam_ok_def)
    with len ok show False by (simp add: cam_ok_def)
  qed
  with ok len show ?thesis by (simp add: cam_ok_def)
qed

text \<open>
  An instance: a drag far upwards (press at the origin, cursor moved by 100000 pixels)
  is clamped to the lower bound, and the position stays off the target.
\<close>

theorem elevation_invariant_witness:
  "elevation (camera (handle_events
      [MouseButtonEvent GLFW_MOUSE_BUTTON_LEFT GLFW_PRESS 0 0 0, CursorPosEvent 0 100000] state_init)) = 0.01
   \<and> position (camera (handle_events
      [MouseButtonEvent GLFW_MOUSE_BUTTON_LEFT GLFW_PRESS 0 0 0, CursorPosEvent 0 100000] state_init))
     \<noteq> target (camera (handle_events
      [MouseButtonEvent GLFW_MOUSE_BUTTON_LEFT GLFW_PRESS 0 0 0, CursorPosEvent 0 100000] state_init))"
proof -
  have "elevation (camera (handle_events
      [MouseButtonEvent GLFW_MOUSE_BUTTON_LEFT GLFW_PRESS 0 0 0, CursorPosEvent 0 100000] state_init)) = 0.01"
    by (simp add: handle_events_def processMouseButton_def processMouseMove_def update_def Let_def
        state_init_def camera_init_def std_clamp_def
        GLFW_MOUSE_BUTTON_LEFT_def GLFW_PRESS_def GLFW_MOUSE_BUTTON_RIGHT_def)
  with elevation_invariant
    [of "[MouseButtonEvent GLFW_MOUSE_BUTTON_LEFT GLFW_PRESS 0 0 0, CursorPosEvent 0 100000]"]
  show ?thesis by simp
qed

section \<open>The compute dispatch: resolution\<close>

text \<open>
  C1: the dispatch selects the full pair (\<open>COMPUTE_WIDTH\<close>, \<open>COMPUTE_HEIGHT\<close>) while
  \<open>moving\<close> is false and a strictly smaller pair while it is true. The function is a
  conditional on \<open>moving\<close> alone, so a change of the flag takes effect at the next
  dispatch; but its two branches give the same size. After a left-button press and a
  cursor move the camera is moving, and with the engine's constants the size is 200 by
  150, as it is for the idle camera of the initial state: nothing is reduced.
\<close>

theorem compute_resolution_not_reduced:
  "moving (camera (handle_events
      [MouseButtonEvent GLFW_MOUSE_BUTTON_LEFT GLFW_PRESS 0 0 0, CursorPosEvent 5 5] state_init)) = True
   \<and> compute_resolution engine_init (camera (handle_events
      [MouseButtonEvent GLFW_MOUSE_BUTTON_LEFT GLFW_PRESS 0 0 0, CursorPosEvent 5 5] state_init)) = (200, 150)
   \<and> dispatch_groups engine_init (camera (handle_events
      [MouseButtonEvent GLFW_MOUSE_BUTTON_LEFT GLFW_PRESS 0 0 0, CursorPosEvent 5 5] state_init)) = (13, 10)
   \<and> moving (camera state_init) = False
   \<and> compute_resolution engine_init (camera state_init) = (200, 150)
   \<and> dispatch_groups engine_init (camera state_init) = (13, 10)
   \<and> (COMPUTE_WIDTH engine_init, COMPUTE_HEIGHT engine_init) = (200, 150)"
proof -
  have m: "moving (camera (handle_events
      [MouseButtonEvent GLFW_MOUSE_BUTTON_LEFT GLFW_PRESS 0 0 0, CursorPosEvent 5 5] state_init)) = True"
    by (simp add: handle_events_def processMouseButton_def processMouseMove_def update_def Let_def
        state_init_def camera_init_def
        GLFW_MOUSE_BUTTON_LEFT_def GLFW_PRESS_def GLFW_MOUSE_BUTTON_RIGHT_def)
  have c: "\<lceil>(200 :: real) / 16\<rceil> = 13" "\<lceil>(150 :: real) / 16\<rceil> = 10"
    by (simp_all add: ceiling_eq_iff)
  have i: "moving (camera state_init) = False"
    by (simp add: state_init_def camera_init_def)
  show ?thesis
    by (simp add: m i c compute_resolution_def dispatch_groups_def engine_init_def Let_def)
qed

section \<open>The integrator: each body is updated once, in list order\<close>

lemma step_body_length: "length (step_body i objs) = length objs"
  by (simp add: step_body_def advance_def Let_def)

lemma step_body_other: "j \<noteq> i \<Longrightarrow> step_body i objs ! j = objs ! j"
  by (simp add: step_body_def advance_def Let_def)

lemma step_body_self:
  "i < length objs \<Longrightarrow>
     posRadius (step_body i objs ! i) = vec4_add (posRadius (objs ! i)) (vec4_of (velocity (step_body i objs ! i)) 0)
     \<and> velocity (step_body i objs ! i) = vec3_add (velocity (objs ! i)) (total_acc i objs)
     \<and> mass (step_body i objs ! i) = mass (objs ! i) \<and> color (step_body i objs ! i) = color (objs ! i)"
  by (simp add: step_body_def advance_def Let_def)

lemma steps_length: "length (fold step_body [0..<k] objs) = length objs"
  by (induction k) (simp_all add: step_body_length)

lemma steps_untouched: "k \<le> j \<Longrightarrow> fold step_body [0..<k] objs ! j = objs ! j"
  by (induction k) (simp_all add: step_body_other)

lemma steps_done: "i < k \<Longrightarrow> fold step_body [0..<k] objs ! i = step_body i (fold step_body [0..<i] objs) ! i"
proof (induction k)
  case 0
  then show ?case by simp
next
  case (Suc k)
  show ?case
  proof (cases "i = k")
    case True
    then show ?thesis by simp
  next
    case False
    with Suc.prems have "i < k" by simp
    with Suc.IH False show ?thesis by (simp add: step_body_other)
  qed
qed

lemma gravity_step_body:
  assumes "i < length objs"
  shows "gravity_step objs ! i = step_body i (fold step_body [0..<i] objs) ! i"
    and "posRadius (gravity_step objs ! i)
        = vec4_add (posRadius (objs ! i)) (vec4_of (velocity (gravity_step objs ! i)) 0)"
    and "velocity (gravity_step objs ! i)
        = vec3_add (velocity (objs ! i)) (total_acc i (fold step_body [0..<i] objs))"
proof -
  let ?S = "fold step_body [0..<i] objs"
  show eq: "gravity_step objs ! i = step_body i ?S ! i"
    unfolding gravity_step_def using assms by (rule steps_done)
  have i: "i < length ?S" using assms by (simp add: steps_length)
  have same: "?S ! i = objs ! i" by (simp add: steps_untouched)
  from step_body_self [OF i] eq same
  show "posRadius (gravity_step objs ! i)
        = vec4_add (posRadius (objs ! i)) (vec4_of (velocity (gravity_step objs ! i)) 0)"
    and "velocity (gravity_step objs ! i)
        = vec3_add (velocity (objs ! i)) (total_acc i (fold step_body [0..<i] objs))"
    by simp_all
qed

text \<open>
  What a body gains in velocity is the sum of the contributions, in the specification's
  words, of all the other bodies of the list: the ones before it at their new positions,
  the ones after it at their old ones.
\<close>

lemma vec3_add_zero: "vec3_add (0, 0, 0) v = v"
  by (cases v) (simp add: vec3_add_def)

lemma vec3_add_zero_right: "vec3_add v (0, 0, 0) = v"
  by (cases v) (simp add: vec3_add_def)

lemma accumulate_spec:
  assumes "mass obj \<noteq> 0"
  shows "accumulate obj obj2 acc
     = vec3_add acc (spec_acceleration (vec3_of (posRadius obj)) (vec3_of (posRadius obj2)) (mass obj2))"
proof -
  have "G * mass obj * mass obj2 / (d * d) / mass obj = G * mass obj2 / (d * d)" for d
    using assms by simp
  then show ?thesis
    by (simp add: accumulate_def spec_acceleration_def Let_def vec3_add_zero_right)
qed

lemma vec3_sum_empty: "vec3_sum f {} = (0, 0, 0)"
  by (simp add: vec3_sum_def)

lemma vec3_sum_insert:
  "finite A \<Longrightarrow> k \<notin> A \<Longrightarrow> vec3_sum f (insert k A) = vec3_add (vec3_sum f A) (f k)"
  by (cases "f k") (simp add: vec3_sum_def vec3_add_def)

lemma vec3_sum_cong: "(\<And>j. j \<in> A \<Longrightarrow> f j = g j) \<Longrightarrow> vec3_sum f A = vec3_sum g A"
  by (simp add: vec3_sum_def)

lemma vec3_add_assoc: "vec3_add (vec3_add a b) c = vec3_add a (vec3_add b c)"
  by (cases a; cases b; cases c) (simp add: vec3_add_def)

lemma fold_skip_sum:
  "fold (\<lambda>j acc. if j = i then acc else vec3_add acc (g j)) [0..<k] a
     = vec3_add a (vec3_sum g ({..<k} - {i}))"
proof (induction k)
  case 0
  then show ?case by (simp add: vec3_sum_empty vec3_add_zero_right)
next
  case (Suc k)
  show ?case
  proof (cases "k = i")
    case True
    then have "{..<Suc k} - {i} = {..<k} - {i}" by auto
    with Suc True show ?thesis by simp
  next
    case False
    then have "{..<Suc k} - {i} = insert k ({..<k} - {i})" by auto
    moreover have "finite ({..<k} - {i})" "k \<notin> {..<k} - {i}" by simp_all
    ultimately show ?thesis
      using Suc False by (simp add: vec3_sum_insert vec3_add_assoc)
  qed
qed

lemma total_acc_spec:
  assumes "mass (S ! i) \<noteq> 0"
  shows "total_acc i S
     = vec3_sum (\<lambda>j. spec_acceleration (vec3_of (posRadius (S ! i))) (vec3_of (posRadius (S ! j))) (mass (S ! j)))
         ({..<length S} - {i})"
proof -
  have "total_acc i S = fold (\<lambda>j acc. if j = i then acc else vec3_add acc
          (spec_acceleration (vec3_of (posRadius (S ! i))) (vec3_of (posRadius (S ! j))) (mass (S ! j))))
        [0..<length S] (0, 0, 0)"
    unfolding total_acc_def by (simp only: accumulate_spec [OF assms])
  then show ?thesis
    by (simp only: fold_skip_sum vec3_add_zero)
qed

lemma steps_mass: "j < length objs \<Longrightarrow> mass (fold step_body [0..<k] objs ! j) = mass (objs ! j)"
proof (induction k)
  case 0
  then show ?case by simp
next
  case (Suc k)
  then show ?case
    by (cases "j = k") (simp_all add: step_body_other step_body_self steps_length)
qed

lemma steps_color: "j < length objs \<Longrightarrow> color (fold step_body [0..<k] objs ! j) = color (objs ! j)"
proof (induction k)
  case 0
  then show ?case by simp
next
  case (Suc k)
  then show ?case
    by (cases "j = k") (simp_all add: step_body_other step_body_self steps_length)
qed

lemma gravity_step_mass_color:
  assumes "j < length objs"
  shows "mass (gravity_step objs ! j) = mass (objs ! j)" and "color (gravity_step objs ! j) = color (objs ! j)"
  using assms by (simp_all add: gravity_step_def steps_mass steps_color)

lemma gravity_step_sources:
  assumes i: "i < length objs" and m: "mass (objs ! i) \<noteq> 0"
  shows "velocity (gravity_step objs ! i)
     = vec3_add (velocity (objs ! i))
         (vec3_sum (\<lambda>j. spec_acceleration (vec3_of (posRadius (objs ! i)))
                          (vec3_of (posRadius (if j < i then gravity_step objs ! j else objs ! j)))
                          (mass (objs ! j)))
            ({..<length objs} - {i}))"
proof -
  let ?T = "fold step_body [0..<i] objs"
  have Ti: "?T ! i = objs ! i" by (simp add: steps_untouched)
  have len: "length ?T = length objs" by (rule steps_length)
  have Tj: "?T ! j = (if j < i then gravity_step objs ! j else objs ! j)" if "j < length objs" for j
  proof (cases "j < i")
    case True
    then have "?T ! j = step_body j (fold step_body [0..<j] objs) ! j" by (rule steps_done)
    also have "\<dots> = gravity_step objs ! j" using that by (simp add: gravity_step_body(1))
    finally show ?thesis using True by simp
  next
    case False
    then show ?thesis by (simp add: steps_untouched)
  qed
  have "velocity (gravity_step objs ! i) = vec3_add (velocity (objs ! i)) (total_acc i ?T)"
    using i by (rule gravity_step_body(3))
  also have "total_acc i ?T
     = vec3_sum (\<lambda>j. spec_acceleration (vec3_of (posRadius (?T ! i))) (vec3_of (posRadius (?T ! j))) (mass (?T ! j)))
         ({..<length ?T} - {i})"
    using m by (intro total_acc_spec) (simp add: Ti)
  also have "\<dots> = vec3_sum (\<lambda>j. spec_acceleration (vec3_of (posRadius (objs ! i)))
                          (vec3_of (posRadius (if j < i then gravity_step objs ! j else objs ! j)))
                          (mass (objs ! j)))
            ({..<length objs} - {i})"
    unfolding len by (rule vec3_sum_cong) (simp add: Ti Tj gravity_step_mass_color)
  finally show ?thesis .
qed

section \<open>The object buffer\<close>

lemma upload_entry_fields:
  "numObjects (upload_entry objs i d) = numObjects d"
  "length (ubo_posRadius (upload_entry objs i d)) = length (ubo_posRadius d)"
  "length (ubo_color (upload_entry objs i d)) = length (ubo_color d)"
  "length (ubo_mass (upload_entry objs i d)) = length (ubo_mass d)"
  by (simp_all add: upload_entry_def)

lemma upload_entry_nth:
  "i < length (ubo_posRadius d) \<Longrightarrow>
     ubo_posRadius (upload_entry objs i d) ! j = (if j = i then posRadius (objs ! i) else ubo_posRadius d ! j)"
  "i < length (ubo_color d) \<Longrightarrow>
     ubo_color (upload_entry objs i d) ! j = (if j = i then color (objs ! i) else ubo_color d ! j)"
  "i < length (ubo_mass d) \<Longrightarrow>
     ubo_mass (upload_entry objs i d) ! j = (if j = i then mass (objs ! i) else ubo_mass d ! j)"
  by (simp_all add: upload_entry_def nth_list_update)

lemma upload_loop:
  assumes "k \<le> length (ubo_posRadius d)" "k \<le> length (ubo_color d)" "k \<le> length (ubo_mass d)"
  shows "numObjects (fold (upload_entry objs) [0..<k] d) = numObjects d
    \<and> length (ubo_posRadius (fold (upload_entry objs) [0..<k] d)) = length (ubo_posRadius d)
    \<and> length (ubo_color (fold (upload_entry objs) [0..<k] d)) = length (ubo_color d)
    \<and> length (ubo_mass (fold (upload_entry objs) [0..<k] d)) = length (ubo_mass d)
    \<and> (\<forall>i. ubo_posRadius (fold (upload_entry objs) [0..<k] d) ! i
            = (if i < k then posRadius (objs ! i) else ubo_posRadius d ! i))
    \<and> (\<forall>i. ubo_color (fold (upload_entry objs) [0..<k] d) ! i
            = (if i < k then color (objs ! i) else ubo_color d ! i))
    \<and> (\<forall>i. ubo_mass (fold (upload_entry objs) [0..<k] d) ! i
            = (if i < k then mass (objs ! i) else ubo_mass d ! i))"
  using assms
proof (induction k)
  case 0
  then show ?case by simp
next
  case (Suc k)
  let ?r = "fold (upload_entry objs) [0..<k] d"
  from Suc have IH: "numObjects ?r = numObjects d
    \<and> length (ubo_posRadius ?r) = length (ubo_posRadius d)
    \<and> length (ubo_color ?r) = length (ubo_color d)
    \<and> length (ubo_mass ?r) = length (ubo_mass d)
    \<and> (\<forall>i. ubo_posRadius ?r ! i = (if i < k then posRadius (objs ! i) else ubo_posRadius d ! i))
    \<and> (\<forall>i. ubo_color ?r ! i = (if i < k then color (objs ! i) else ubo_color d ! i))
    \<and> (\<forall>i. ubo_mass ?r ! i = (if i < k then mass (objs ! i) else ubo_mass d ! i))"
    by simp
  have step: "fold (upload_entry objs) [0..<Suc k] d = upload_entry objs k ?r"
    by simp
  from Suc.prems IH have k: "k < length (ubo_posRadius ?r)" "k < length (ubo_color ?r)" "k < length (ubo_mass ?r)"
    by simp_all
  show ?case
    unfolding step using IH
    by (simp add: upload_entry_fields upload_entry_nth(1) [OF k(1)] upload_entry_nth(2) [OF k(2)]
        upload_entry_nth(3) [OF k(3)] less_Suc_eq)
qed

lemma spec_acceleration_x_axis:
  "spec_acceleration (a, 0, 0) (b, 0, 0) m
     = (if a = b then (0, 0, 0) else (sgn (b - a) * (G * m / ((b - a) * (b - a))), 0, 0))"
proof (cases "a = b")
  case True
  then show ?thesis
    by (simp add: spec_acceleration_def vec3_sub_def glm_length_def Let_def)
next
  case False
  then have "glm_length (b - a, 0, 0) = \<bar>b - a\<bar>" "0 < \<bar>b - a\<bar>" "(b - a) / \<bar>b - a\<bar> = sgn (b - a)"
    by (simp_all add: glm_length_def real_sgn_eq)
  with False show ?thesis
    by (simp add: spec_acceleration_def vec3_sub_def vec3_div_def vec3_scale_def Let_def)
qed

lemma vec3_sum_const_x: "vec3_sum (\<lambda>j. (c, 0, 0)) A = (real (card A) * c, 0, 0)"
  by (simp add: vec3_sum_def)

lemma vec3_sum_support:
  assumes "finite A" "B \<subseteq> A" "\<And>j. j \<in> A - B \<Longrightarrow> f j = (0, 0, 0)"
  shows "vec3_sum f A = vec3_sum f B"
proof -
  have "(\<Sum>j\<in>B. fst (f j)) = (\<Sum>j\<in>A. fst (f j))"
    "(\<Sum>j\<in>B. fst (snd (f j))) = (\<Sum>j\<in>A. fst (snd (f j)))"
    "(\<Sum>j\<in>B. snd (snd (f j))) = (\<Sum>j\<in>A. snd (snd (f j)))"
    using assms by (intro sum.mono_neutral_left; simp)+
  then show ?thesis by (simp add: vec3_sum_def)
qed

lemma twenty_bodies_nth:
  "j < 18 \<Longrightarrow> twenty_bodies ! j
     = \<lparr> posRadius = (0, 0, 0, 1), color = (1, 1, 1, 1), mass = 100000000, velocity = (0, 0, 0) \<rparr>"
  "twenty_bodies ! 18
     = \<lparr> posRadius = (- 1, 0, 0, 1), color = (1, 1, 1, 1), mass = 100000000, velocity = (0, 0, 0) \<rparr>"
  "twenty_bodies ! 19
     = \<lparr> posRadius = (1, 0, 0, 1), color = (1, 1, 1, 1), mass = 100000000, velocity = (0, 0, 0) \<rparr>"
  "length twenty_bodies = 20"
  by (simp_all add: twenty_bodies_def nth_append)

lemma twenty_bodies_fields:
  "j < 20 \<Longrightarrow> mass (twenty_bodies ! j) = 100000000"
  "j < 20 \<Longrightarrow> velocity (twenty_bodies ! j) = (0, 0, 0)"
  "j < 20 \<Longrightarrow> vec3_of (posRadius (twenty_bodies ! j))
      = (if j < 18 then (0, 0, 0) else if j = 18 then (- 1, 0, 0) else (1, 0, 0))"
  "j < 20 \<Longrightarrow> posRadius (twenty_bodies ! j)
      = (if j < 18 then (0, 0, 0, 1) else if j = 18 then (- 1, 0, 0, 1) else (1, 0, 0, 1))"
proof -
  assume "j < 20"
  then consider "j < 18" | "j = 18" | "j = 19" by linarith
  then show "mass (twenty_bodies ! j) = 100000000"
    by cases (simp_all add: twenty_bodies_nth)
next
  assume "j < 20"
  then consider "j < 18" | "j = 18" | "j = 19" by linarith
  then show "velocity (twenty_bodies ! j) = (0, 0, 0)"
    by cases (simp_all add: twenty_bodies_nth)
next
  assume "j < 20"
  then consider "j < 18" | "j = 18" | "j = 19" by linarith
  then show "vec3_of (posRadius (twenty_bodies ! j))
      = (if j < 18 then (0, 0, 0) else if j = 18 then (- 1, 0, 0) else (1, 0, 0))"
    by cases (simp_all add: twenty_bodies_nth vec3_of_def)
next
  assume "j < 20"
  then consider "j < 18" | "j = 18" | "j = 19" by linarith
  then show "posRadius (twenty_bodies ! j)
      = (if j < 18 then (0, 0, 0, 1) else if j = 18 then (- 1, 0, 0, 1) else (1, 0, 0, 1))"
    by cases (simp_all add: twenty_bodies_nth)
qed

lemma vec3_of_tuple: "vec3_of (x, y, z, w) = (x, y, z)"
  by (simp add: vec3_of_def)

text \<open>The eighteen bodies at the origin are pulled equally to both sides and stay.\<close>

lemma twenty_bodies_origin:
  "j < 18 \<Longrightarrow> velocity (gravity_step twenty_bodies ! j) = (0, 0, 0)
     \<and> posRadius (gravity_step twenty_bodies ! j) = (0, 0, 0, 1)"
proof (induction j rule: less_induct)
  case (less j)
  let ?R = "gravity_step twenty_bodies"
  let ?f = "\<lambda>k. spec_acceleration (vec3_of (posRadius (twenty_bodies ! j)))
              (vec3_of (posRadius (if k < j then ?R ! k else twenty_bodies ! k))) (mass (twenty_bodies ! k))"
  have j20: "j < length twenty_bodies" using less.prems by (simp add: twenty_bodies_nth)
  have pj: "vec3_of (posRadius (twenty_bodies ! j)) = (0, 0, 0)"
    using less.prems by (simp add: twenty_bodies_nth vec3_of_def)
  have zero: "?f k = (0, 0, 0)" if "k \<in> ({..<20} - {j}) - {18, 19}" for k
  proof -
    from that have k: "k < 18" "k \<noteq> j" by auto
    have "vec3_of (posRadius (if k < j then ?R ! k else twenty_bodies ! k)) = (0, 0, 0)"
      using k less.IH [of k] less.prems by (simp add: twenty_bodies_fields vec3_of_def)
    then show ?thesis by (simp add: pj spec_acceleration_x_axis)
  qed
  have "vec3_sum ?f ({..<20} - {j}) = vec3_sum ?f {18, 19}"
    using less.prems by (intro vec3_sum_support zero) auto
  also have "\<dots> = vec3_add (vec3_add (0, 0, 0) (?f 19)) (?f 18)"
    by (simp add: vec3_sum_insert vec3_sum_empty)
  also have "\<dots> = (0, 0, 0)"
    using less.prems
    by (simp add: pj twenty_bodies_fields vec3_of_tuple spec_acceleration_x_axis vec3_add_def)
  finally have sum: "vec3_sum ?f ({..<length twenty_bodies} - {j}) = (0, 0, 0)"
    by (simp add: twenty_bodies_nth)
  have "velocity (?R ! j) = vec3_add (velocity (twenty_bodies ! j)) (vec3_sum ?f ({..<length twenty_bodies} - {j}))"
    using j20 less.prems by (intro gravity_step_sources) (simp_all add: twenty_bodies_fields)
  then have "velocity (?R ! j) = vec3_add (velocity (twenty_bodies ! j)) (0, 0, 0)"
    by (simp only: sum)
  then have v: "velocity (?R ! j) = (0, 0, 0)"
    using less.prems by (simp add: twenty_bodies_fields vec3_add_def)
  from gravity_step_body(2) [OF j20] v less.prems
  show ?case by (simp add: twenty_bodies_fields vec4_add_def vec4_of_def)
qed

text \<open>
  C6: for \<open>n\<close> bodies the count field is \<open>min n 16\<close>; the entries below that index hold
  the position and radius, colour and mass of the bodies in list order; the entries from
  that index on are what the struct held before (they are not written); and the
  integrator still works on every one of the \<open>n\<close> bodies, whatever its index: the result
  has \<open>n\<close> bodies; each body keeps its mass and colour, has its position advanced by its
  new velocity, and (its mass not being zero) gains in velocity the sum of the
  contributions \<open>(G * m\<^sub>j / d\<^sup>2) * unit(displacement)\<close> of all the other \<open>n - 1\<close> bodies,
  taken at their new positions for the bodies before it in the list and at their old
  positions for the bodies after it.
\<close>

theorem uploadObjectsUBO_truncates:
  assumes "length (ubo_posRadius data0) = 16" "length (ubo_color data0) = 16" "length (ubo_mass data0) = 16"
  shows "numObjects (uploadObjectsUBO objs data0) = int (min (length objs) 16)
    \<and> (\<forall>i < min (length objs) 16.
          ubo_posRadius (uploadObjectsUBO objs data0) ! i = posRadius (objs ! i)
        \<and> ubo_color (uploadObjectsUBO objs data0) ! i = color (objs ! i)
        \<and> ubo_mass (uploadObjectsUBO objs data0) ! i = mass (objs ! i))
    \<and> (\<forall>i \<ge> min (length objs) 16.
          ubo_posRadius (uploadObjectsUBO objs data0) ! i = ubo_posRadius data0 ! i
        \<and> ubo_color (uploadObjectsUBO objs data0) ! i = ubo_color data0 ! i
        \<and> ubo_mass (uploadObjectsUBO objs data0) ! i = ubo_mass data0 ! i)
    \<and> length (ubo_posRadius (uploadObjectsUBO objs data0)) = 16
    \<and> length (ubo_color (uploadObjectsUBO objs data0)) = 16
    \<and> length (ubo_mass (uploadObjectsUBO objs data0)) = 16
    \<and> length (gravity_step objs) = length objs
    \<and> (\<forall>i < length objs.
          posRadius (gravity_step objs ! i)
            = vec4_add (posRadius (objs ! i)) (vec4_of (velocity (gravity_step objs ! i)) 0)
        \<and> mass (gravity_step objs ! i) = mass (objs ! i)
        \<and> color (gravity_step objs ! i) = color (objs ! i)
        \<and> (mass (objs ! i) \<noteq> 0 \<longrightarrow>
             velocity (gravity_step objs ! i)
               = vec3_add (velocity (objs ! i))
                   (vec3_sum (\<lambda>j. spec_acceleration (vec3_of (posRadius (objs ! i)))
                                    (vec3_of (posRadius (if j < i then gravity_step objs ! j else objs ! j)))
                                    (mass (objs ! j)))
                      ({..<length objs} - {i}))))"
proof -
  define n where "n = min (length objs) 16"
  let ?d = "data0\<lparr>numObjects := int n\<rparr>"
  let ?u = "uploadObjectsUBO objs data0"
  have up: "?u = fold (upload_entry objs) [0..<n] ?d"
    by (simp add: uploadObjectsUBO_def Let_def n_def)
  have "n \<le> length (ubo_posRadius ?d)" "n \<le> length (ubo_color ?d)" "n \<le> length (ubo_mass ?d)"
    using assms by (simp_all add: n_def)
  from upload_loop [OF this, of objs]
  have loop: "numObjects ?u = int n"
    "length (ubo_posRadius ?u) = 16" "length (ubo_color ?u) = 16" "length (ubo_mass ?u) = 16"
    "\<And>i. ubo_posRadius ?u ! i = (if i < n then posRadius (objs ! i) else ubo_posRadius data0 ! i)"
    "\<And>i. ubo_color ?u ! i = (if i < n then color (objs ! i) else ubo_color data0 ! i)"
    "\<And>i. ubo_mass ?u ! i = (if i < n then mass (objs ! i) else ubo_mass data0 ! i)"
    unfolding up using assms by simp_all
  have written: "\<forall>i < n. ubo_posRadius ?u ! i = posRadius (objs ! i)
        \<and> ubo_color ?u ! i = color (objs ! i) \<and> ubo_mass ?u ! i = mass (objs ! i)"
    by (simp add: loop)
  have untouched: "\<forall>i \<ge> n. ubo_posRadius ?u ! i = ubo_posRadius data0 ! i
        \<and> ubo_color ?u ! i = ubo_color data0 ! i \<and> ubo_mass ?u ! i = ubo_mass data0 ! i"
    by (simp add: loop)
  have len: "length (gravity_step objs) = length objs"
    by (simp add: gravity_step_def steps_length)
  have integ: "\<forall>i < length objs.
          posRadius (gravity_step objs ! i)
            = vec4_add (posRadius (objs ! i)) (vec4_of (velocity (gravity_step objs ! i)) 0)
        \<and> mass (gravity_step objs ! i) = mass (objs ! i)
        \<and> color (gravity_step objs ! i) = color (objs ! i)
        \<and> (mass (objs ! i) \<noteq> 0 \<longrightarrow>
             velocity (gravity_step objs ! i)
               = vec3_add (velocity (objs ! i))
                   (vec3_sum (\<lambda>j. spec_acceleration (vec3_of (posRadius (objs ! i)))
                                    (vec3_of (posRadius (if j < i then gravity_step objs ! j else objs ! j)))
                                    (mass (objs ! j)))
                      ({..<length objs} - {i})))"
    using gravity_step_body(2) gravity_step_mass_color gravity_step_sources by blast
  from loop(1-4) written untouched len integ show ?thesis
    unfolding n_def by (intro conjI)
qed

text \<open>
  An instance with 20 bodies and a zero-filled struct. The buffer holds 16 bodies, all
  at the origin; the two bodies off the origin, at the indices 18 and 19, are not in it.
  Both are integrated, and both act on the others: the bodies at the origin are pulled
  equally to both sides and stay, the nineteenth is pulled by the eighteen at the origin
  and by the twentieth, and the twentieth by the eighteen at the origin and by the
  nineteenth at its new position.
\<close>

theorem uploadObjectsUBO_truncates_witness:
  "numObjects (uploadObjectsUBO twenty_bodies
      \<lparr>numObjects = 0, ubo_posRadius = replicate 16 (0, 0, 0, 0), ubo_color = replicate 16 (0, 0, 0, 0),
       ubo_mass = replicate 16 0\<rparr>) = 16
   \<and> ubo_posRadius (uploadObjectsUBO twenty_bodies
      \<lparr>numObjects = 0, ubo_posRadius = replicate 16 (0, 0, 0, 0), ubo_color = replicate 16 (0, 0, 0, 0),
       ubo_mass = replicate 16 0\<rparr>) = replicate 16 (0, 0, 0, 1)
   \<and> length (gravity_step twenty_bodies) = 20
   \<and> velocity (gravity_step twenty_bodies ! 0) = (0, 0, 0)
   \<and> velocity (gravity_step twenty_bodies ! 18) = (0.121805975, 0, 0)
   \<and> posRadius (gravity_step twenty_bodies ! 18) = (- 0.878194025, 0, 0, 1)
   \<and> velocity (gravity_step twenty_bodies ! 19)
       = (- (0.1201374 + 0.0066743 / (1.878194025 * 1.878194025)), 0, 0)"
proof -
  let ?d = "\<lparr>numObjects = 0, ubo_posRadius = replicate 16 (0, 0, 0, 0), ubo_color = replicate 16 (0, 0, 0, 0),
       ubo_mass = replicate 16 (0 :: real)\<rparr>"
  let ?R = "gravity_step twenty_bodies"
  let ?u = "uploadObjectsUBO twenty_bodies ?d"
  have "length (ubo_posRadius ?d) = 16" "length (ubo_color ?d) = 16" "length (ubo_mass ?d) = 16"
    by simp_all
  note T = uploadObjectsUBO_truncates [OF this, of twenty_bodies]
  note integ = T [THEN conjunct2, THEN conjunct2, THEN conjunct2, THEN conjunct2, THEN conjunct2,
      THEN conjunct2, THEN conjunct2, rule_format]
  \<comment> \<open>the buffer: sixteen bodies, all of them at the origin\<close>
  have count: "numObjects ?u = 16"
    using T [THEN conjunct1] by (simp add: twenty_bodies_nth)
  have len: "length ?R = 20"
    using T [THEN conjunct2, THEN conjunct2, THEN conjunct2, THEN conjunct2, THEN conjunct2,
      THEN conjunct2, THEN conjunct1] by (simp add: twenty_bodies_nth)
  have ulen: "length (ubo_posRadius ?u) = 16"
    using T [THEN conjunct2, THEN conjunct2, THEN conjunct2, THEN conjunct1] .
  have entries: "ubo_posRadius ?u ! i = posRadius (twenty_bodies ! i)" if "i < 16" for i
    using T [THEN conjunct2, THEN conjunct1, rule_format, of i] that by (simp add: twenty_bodies_nth)
  have buf: "ubo_posRadius ?u = replicate 16 (0, 0, 0, 1)"
    using ulen by (intro nth_equalityI) (simp_all add: entries twenty_bodies_fields)
  \<comment> \<open>the nineteenth body, pulled by the eighteen at the origin and by the twentieth\<close>
  have v18: "velocity (?R ! 18) = vec3_add (velocity (twenty_bodies ! 18))
      (vec3_sum (\<lambda>j. spec_acceleration (vec3_of (posRadius (twenty_bodies ! 18)))
                    (vec3_of (posRadius (if j < 18 then ?R ! j else twenty_bodies ! j)))
                    (mass (twenty_bodies ! j))) ({..<length twenty_bodies} - {18}))"
    and p18: "posRadius (?R ! 18) = vec4_add (posRadius (twenty_bodies ! 18)) (vec4_of (velocity (?R ! 18)) 0)"
    using integ [of 18] by (simp_all add: twenty_bodies_nth)
  have s18: "{..<length twenty_bodies} - {18 :: nat} = insert 19 {..<18}"
    by (auto simp: twenty_bodies_nth)
  have "vec3_sum (\<lambda>j. spec_acceleration (vec3_of (posRadius (twenty_bodies ! 18)))
                    (vec3_of (posRadius (if j < 18 then ?R ! j else twenty_bodies ! j)))
                    (mass (twenty_bodies ! j))) {..<18}
      = vec3_sum (\<lambda>j. (G * 100000000, 0, 0)) {..<18}"
    by (rule vec3_sum_cong)
      (simp add: twenty_bodies_origin twenty_bodies_fields twenty_bodies_nth vec3_of_tuple spec_acceleration_x_axis)
  then have vel18: "velocity (?R ! 18) = (0.121805975, 0, 0)"
    unfolding v18 s18
    by (simp add: vec3_sum_insert vec3_sum_const_x twenty_bodies_nth vec3_of_tuple
        spec_acceleration_x_axis vec3_add_def G_def)
  with p18 have pos18: "posRadius (?R ! 18) = (- 0.878194025, 0, 0, 1)"
    by (simp add: twenty_bodies_nth vec4_add_def vec4_of_def)
  \<comment> \<open>the twentieth body, pulled by the eighteen at the origin and by the nineteenth where it is now\<close>
  have v19: "velocity (?R ! 19) = vec3_add (velocity (twenty_bodies ! 19))
      (vec3_sum (\<lambda>j. spec_acceleration (vec3_of (posRadius (twenty_bodies ! 19)))
                    (vec3_of (posRadius (if j < 19 then ?R ! j else twenty_bodies ! j)))
                    (mass (twenty_bodies ! j))) ({..<length twenty_bodies} - {19}))"
    using integ [of 19] by (simp add: twenty_bodies_nth)
  have s19: "{..<length twenty_bodies} - {19 :: nat} = insert 18 {..<18}"
    by (auto simp: twenty_bodies_nth)
  have "vec3_sum (\<lambda>j. spec_acceleration (vec3_of (posRadius (twenty_bodies ! 19)))
                    (vec3_of (posRadius (if j < 19 then ?R ! j else twenty_bodies ! j)))
                    (mass (twenty_bodies ! j))) {..<18}
      = vec3_sum (\<lambda>j. (- (G * 100000000), 0, 0)) {..<18}"
    by (rule vec3_sum_cong)
      (simp add: twenty_bodies_origin twenty_bodies_fields twenty_bodies_nth vec3_of_tuple spec_acceleration_x_axis)
  then have vel19: "velocity (?R ! 19) = (- (0.1201374 + 0.0066743 / (1.878194025 * 1.878194025)), 0, 0)"
    unfolding v19 s19
    by (simp add: vec3_sum_insert vec3_sum_const_x twenty_bodies_nth pos18 vec3_of_tuple
        spec_acceleration_x_axis vec3_add_def G_def)
  from count buf len vel18 pos18 vel19 twenty_bodies_origin [of 0] show ?thesis
    by simp
qed

section \<open>The curvature grid: where the sample points lie\<close>

lemma grid_vertices_set:
  "set (grid_vertices gs objs) = {grid_vertex gs objs z x | z x. z \<le> gs \<and> x \<le> gs}"
proof -
  have "set [0..<Suc gs] = {k. k \<le> gs}" by auto
  then show ?thesis
    unfolding grid_vertices_def by (auto simp del: upt_Suc set_upt)
qed

lemma grid_vertex_xz:
  "fst (grid_vertex gs objs z x) = world_coord gs x"
  "snd (snd (grid_vertex gs objs z x)) = world_coord gs z"
  by (simp_all add: grid_vertex_def Let_def)

lemma world_coord_gridSize: "world_coord 25 k = (real k - 12) * spacing"
  by (simp add: world_coord_def)

lemma grid_xs: "fst ` set (grid_vertices gridSize objs) = {(real k - 12) * spacing | k. k \<le> 25}"
proof -
  have "fst ` set (grid_vertices gridSize objs) = {world_coord gridSize x | x. x \<le> gridSize}"
    unfolding grid_vertices_set by (force simp: grid_vertex_xz image_iff)
  then show ?thesis by (simp add: world_coord_gridSize gridSize_def)
qed

lemma grid_zs: "(\<lambda>v. snd (snd v)) ` set (grid_vertices gridSize objs) = {(real k - 12) * spacing | k. k \<le> 25}"
proof -
  have "(\<lambda>v. snd (snd v)) ` set (grid_vertices gridSize objs) = {world_coord gridSize z | z. z \<le> gridSize}"
    unfolding grid_vertices_set by (force simp: grid_vertex_xz image_iff)
  then show ?thesis by (simp add: world_coord_gridSize gridSize_def)
qed

lemma axis_max: "Max {(real k - 12) * spacing | k. k \<le> 25} = 13 * spacing"
proof (rule Max_eqI)
  show "finite {(real k - 12) * spacing | k. k \<le> 25}" by simp
  show "\<And>y. y \<in> {(real k - 12) * spacing | k. k \<le> 25} \<Longrightarrow> y \<le> 13 * spacing"
    by (auto simp: spacing_def)
  show "13 * spacing \<in> {(real k - 12) * spacing | k. k \<le> 25}"
    by (simp, rule exI [of _ 25]) simp
qed

lemma axis_min: "Min {(real k - 12) * spacing | k. k \<le> 25} = - 12 * spacing"
proof (rule Min_eqI)
  show "finite {(real k - 12) * spacing | k. k \<le> 25}" by simp
  show "\<And>y. y \<in> {(real k - 12) * spacing | k. k \<le> 25} \<Longrightarrow> - 12 * spacing \<le> y"
    by (auto simp: spacing_def)
  show "- 12 * spacing \<in> {(real k - 12) * spacing | k. k \<le> 25}"
    by (simp, rule exI [of _ 0]) simp
qed

lemma grid_planar_points:
  "planar_points (grid_vertices gridSize objs)
     = {((real x - 12) * spacing, (real z - 12) * spacing) | x z. x \<le> 25 \<and> z \<le> 25}"
proof -
  have "planar_points (grid_vertices gridSize objs)
      = {(world_coord 25 x, world_coord 25 z) | x z. x \<le> 25 \<and> z \<le> 25}"
    unfolding planar_points_def grid_vertices_set gridSize_def
    by (force simp: grid_vertex_def Let_def image_iff)
  then show ?thesis by (simp add: world_coord_gridSize)
qed

lemma grid_point_member:
  "i \<le> 25 \<Longrightarrow> j \<le> 25 \<Longrightarrow>
     ((real i - 12) * spacing, (real j - 12) * spacing) \<in> planar_points (grid_vertices gridSize objs)"
  unfolding grid_planar_points by blast

lemma grid_mirror:
  assumes "(x, z) \<in> planar_points (grid_vertices gridSize objs)" "x \<le> 12 * spacing" "z \<le> 12 * spacing"
  shows "(- x, - z) \<in> planar_points (grid_vertices gridSize objs)"
proof -
  from assms(1) obtain i j :: nat where ij: "i \<le> 25" "j \<le> 25"
    and x: "x = (real i - 12) * spacing" and z: "z = (real j - 12) * spacing"
    unfolding grid_planar_points by auto
  from assms(2,3) x z have "i \<le> 24" "j \<le> 24"
    by (simp_all add: spacing_def)
  then have "- x = (real (24 - i) - 12) * spacing" "- z = (real (24 - j) - 12) * spacing"
    by (simp_all add: x z algebra_simps)
  moreover have "24 - i \<le> 25" "24 - j \<le> 25" by simp_all
  ultimately show ?thesis
    unfolding grid_planar_points by blast
qed

text \<open>
  C8 as stated (the sample points are centred on the origin: the set of planar
  coordinates is symmetric about \<open>(0, 0)\<close> and the extreme coordinates on each axis are
  negatives of each other) fails: \<^verbatim>\<open>gridSize / 2\<close> is 12 for the odd size 25, so the
  coordinates run from \<open>-12\<close> to \<open>+13\<close> spacings; the corner at \<open>(13, 13)\<close> spacings is a
  grid point and its mirror image is not.
\<close>

theorem grid_not_centred:
  "Max (fst ` set (fst (generateGrid objects_init))) = 130000000000
   \<and> Min (fst ` set (fst (generateGrid objects_init))) = - 120000000000
   \<and> Max ((\<lambda>v. snd (snd v)) ` set (fst (generateGrid objects_init))) = 130000000000
   \<and> Min ((\<lambda>v. snd (snd v)) ` set (fst (generateGrid objects_init))) = - 120000000000
   \<and> (130000000000, 130000000000) \<in> planar_points (fst (generateGrid objects_init))
   \<and> (- 130000000000, - 130000000000) \<notin> planar_points (fst (generateGrid objects_init))"
proof -
  have "(13 * spacing, 13 * spacing) \<in> planar_points (grid_vertices gridSize objects_init)"
    using grid_point_member [of 25 25 objects_init] by simp
  moreover have "(- 13 * spacing, - 13 * spacing) \<notin> planar_points (grid_vertices gridSize objects_init)"
    unfolding grid_planar_points by (auto simp: spacing_def)
  ultimately show ?thesis
    by (simp add: generateGrid_def grid_xs grid_zs axis_max axis_min) (simp add: spacing_def)
qed

lemma grid_no_mirror:
  assumes "(x, z) \<in> planar_points (grid_vertices gridSize objs)" "x = 13 * spacing \<or> z = 13 * spacing"
  shows "(- x, - z) \<notin> planar_points (grid_vertices gridSize objs)"
proof
  assume "(- x, - z) \<in> planar_points (grid_vertices gridSize objs)"
  then obtain i j :: nat where "- x = (real i - 12) * spacing" "- z = (real j - 12) * spacing"
    unfolding grid_planar_points by auto
  with assms(2) show False
    by (auto simp: spacing_def)
qed

text \<open>
  C8, amended: the sample points are the \<open>26 \<times> 26\<close> points \<open>((x - 12) * spacing,
  (z - 12) * spacing)\<close> for \<open>x, z = 0..25\<close>. On each axis the least coordinate is
  \<open>-12\<close> and the greatest \<open>+13\<close> spacings. The origin is a sample point, and every grid
  point with both coordinates at most \<open>12\<close> spacings has its mirror image \<open>(-x, -z)\<close> in
  the grid; the points of the last row and of the last column have none.
\<close>

theorem grid_extent:
  "planar_points (fst (generateGrid objs))
     = {((real x - 12) * spacing, (real z - 12) * spacing) | x z. x \<le> 25 \<and> z \<le> 25}
   \<and> Min (fst ` set (fst (generateGrid objs))) = - 12 * spacing
   \<and> Max (fst ` set (fst (generateGrid objs))) = 13 * spacing
   \<and> Min ((\<lambda>v. snd (snd v)) ` set (fst (generateGrid objs))) = - 12 * spacing
   \<and> Max ((\<lambda>v. snd (snd v)) ` set (fst (generateGrid objs))) = 13 * spacing
   \<and> (0, 0) \<in> planar_points (fst (generateGrid objs))
   \<and> (\<forall>(x, z) \<in> planar_points (fst (generateGrid objs)).
         x \<le> 12 * spacing \<and> z \<le> 12 * spacing \<longrightarrow> (- x, - z) \<in> planar_points (fst (generateGrid objs)))
   \<and> (\<forall>(x, z) \<in> planar_points (fst (generateGrid objs)).
         x = 13 * spacing \<or> z = 13 * spacing \<longrightarrow> (- x, - z) \<notin> planar_points (fst (generateGrid objs)))"
proof -
  have origin: "(0, 0) \<in> planar_points (grid_vertices gridSize objs)"
    using grid_point_member [of 12 12 objs] by simp
  have mirror: "\<forall>(x, z) \<in> planar_points (grid_vertices gridSize objs).
         x \<le> 12 * spacing \<and> z \<le> 12 * spacing \<longrightarrow> (- x, - z) \<in> planar_points (grid_vertices gridSize objs)"
    using grid_mirror by blast
  have edge: "\<forall>(x, z) \<in> planar_points (grid_vertices gridSize objs).
         x = 13 * spacing \<or> z = 13 * spacing \<longrightarrow> (- x, - z) \<notin> planar_points (grid_vertices gridSize objs)"
    using grid_no_mirror by blast
  from origin mirror edge show ?thesis
    by (simp only: generateGrid_def fst_conv grid_planar_points grid_xs grid_zs axis_max axis_min simp_thms)
qed

text \<open>An instance: the first vertex, at \<open>(-12, -12)\<close> spacings, and its mirror image.\<close>

theorem grid_extent_witness:
  "(- 12 * spacing, - 12 * spacing) \<in> planar_points (fst (generateGrid objects_init))
   \<and> (12 * spacing, 12 * spacing) \<in> planar_points (fst (generateGrid objects_init))"
proof -
  have in0: "(- 12 * spacing, - 12 * spacing) \<in> planar_points (fst (generateGrid objects_init))"
    using grid_point_member [of 0 0 objects_init] by (simp add: generateGrid_def)
  have le: "- 12 * spacing \<le> 12 * spacing" by (simp add: spacing_def)
  from grid_extent [of objects_init] in0 le
  have "(- (- 12 * spacing), - (- 12 * spacing)) \<in> planar_points (fst (generateGrid objects_init))"
    by blast
  with in0 show ?thesis by simp
qed

section \<open>The curvature grid: the warp at the horizon\<close>

lemma displacement_at_horizon: "0 \<le> r \<Longrightarrow> displacement r r = 2 * r - 30000000000"
  by (simp add: displacement_def)

lemma displacement_outside: "r < d \<Longrightarrow> displacement r d = 2 * sqrt (r * (d - r)) - 30000000000"
  by (simp add: displacement_def Let_def)

lemma outside_formula_limit:
  "((\<lambda>d. 2 * sqrt (r * (d - r)) - 30000000000) \<longlongrightarrow> - 30000000000) (at_right r)"
proof -
  have "((\<lambda>d. 2 * sqrt (r * (d - r)) - 30000000000) \<longlongrightarrow> 2 * sqrt (r * (r - r)) - 30000000000) (at_right r)"
    by (intro tendsto_intros)
  then show ?thesis by simp
qed

lemma displacement_limit_right: "(displacement r \<longlongrightarrow> - 30000000000) (at_right r)"
proof -
  have "\<forall>\<^sub>F d in at_right r. 2 * sqrt (r * (d - r)) - 30000000000 = displacement r d"
    using eventually_at_right_less [of r]
    by (rule eventually_mono) (simp add: displacement_outside)
  then show ?thesis
    using outside_formula_limit by (rule Lim_transform_eventually [rotated])
qed

lemma displacement_jump:
  assumes "0 < r"
  shows "\<not> (displacement r \<longlongrightarrow> 2 * r - 30000000000) (at_right r)"
proof
  assume "(displacement r \<longlongrightarrow> 2 * r - 30000000000) (at_right r)"
  with displacement_limit_right [of r] have "- 30000000000 = 2 * r - 30000000000"
    by (intro tendsto_unique [of "at_right r" "displacement r"]) simp_all
  with assms show False by simp
qed


lemma G_pos: "0 < G"
  by (simp add: G_def)

lemma C_pos: "0 < C"
  by (simp add: C_def)

lemma r_s_pos: "0 < m \<Longrightarrow> 0 < 2.0 * G * m / (C * C)"
  using G_pos C_pos by simp

lemma warp_displacement:
  "posRadius obj = (px, py, pz, w) \<Longrightarrow>
   warp obj worldX worldZ y
      = y + displacement (2 * G * mass obj / (C * C))
              (sqrt ((worldX - px) * (worldX - px) + (worldZ - pz) * (worldZ - pz)))"
  by (simp add: warp_def vec3_of_def Let_def)

lemma attractor_facts:
  "0 < mass (objects_init ! 2)"
  "posRadius (objects_init ! 2) = (0, 0, 0, bh_r_s SagA)"
  "bh_r_s SagA = 2 * G * mass (objects_init ! 2) / (C * C)"
  by (simp_all add: objects_init_def SagA_def BlackHole_new_def)

lemma attractor_r_s_pos: "0 < bh_r_s SagA"
  using r_s_pos [OF attractor_facts(1)] attractor_facts(3) by simp

text \<open>
  C7 as stated (the contribution at distance exactly \<open>r_s\<close> is the saturated value, and
  the outside formula tends to that value as the distance approaches \<open>r_s\<close> from above)
  fails in its second half. For the central body of the initial scene, a point at
  distance \<open>r_s\<close> gets \<open>2 * r_s - 3e10\<close>, but the outside formula tends to \<open>- 3e10\<close>,
  not to the saturated value.
\<close>

theorem attractor_warp_discontinuous:
  "0 < bh_r_s SagA
   \<and> warp (objects_init ! 2) (bh_r_s SagA) 0 0 = 2 * bh_r_s SagA - 30000000000
   \<and> (displacement (bh_r_s SagA) \<longlongrightarrow> - 30000000000) (at_right (bh_r_s SagA))
   \<and> \<not> (displacement (bh_r_s SagA) \<longlongrightarrow> 2 * bh_r_s SagA - 30000000000) (at_right (bh_r_s SagA))"
proof -
  note pos = attractor_r_s_pos
  then have d: "sqrt ((bh_r_s SagA - 0) * (bh_r_s SagA - 0) + (0 - 0) * (0 - 0)) = bh_r_s SagA"
    by simp
  have "warp (objects_init ! 2) (bh_r_s SagA) 0 0 = 0 + displacement (bh_r_s SagA) (bh_r_s SagA)"
    unfolding warp_displacement [OF attractor_facts(2)] d attractor_facts(3) [symmetric] ..
  with pos have "warp (objects_init ! 2) (bh_r_s SagA) 0 0 = 2 * bh_r_s SagA - 30000000000"
    by (simp add: displacement_at_horizon)
  with pos displacement_limit_right [of "bh_r_s SagA"] displacement_jump [of "bh_r_s SagA"]
  show ?thesis by blast
qed

text \<open>
  C7, amended: for every body of positive mass, with \<open>r_s = 2 G m / c\<^sup>2\<close>, a grid point
  whose planar distance to the body is exactly \<open>r_s\<close> receives the saturated value
  \<open>2 * r_s\<close> minus the offset; the contribution is not continuous at this boundary: as
  the distance approaches \<open>r_s\<close> from above, the outside formula tends to minus the
  offset alone, \<open>2 * r_s\<close> below the saturated value.
\<close>

theorem warp_at_horizon:
  assumes "0 < mass obj" and "posRadius obj = (px, py, pz, w)" and "r_s = 2 * G * mass obj / (C * C)"
  shows "(sqrt ((worldX - px) * (worldX - px) + (worldZ - pz) * (worldZ - pz)) = r_s
            \<longrightarrow> warp obj worldX worldZ y = y + (2 * r_s - 30000000000))
     \<and> (displacement r_s \<longlongrightarrow> - 30000000000) (at_right r_s)
     \<and> \<not> (displacement r_s \<longlongrightarrow> 2 * r_s - 30000000000) (at_right r_s)"
proof -
  have pos: "0 < r_s"
    using r_s_pos [OF assms(1)] assms(3) by simp
  have "warp obj worldX worldZ y
      = y + displacement r_s (sqrt ((worldX - px) * (worldX - px) + (worldZ - pz) * (worldZ - pz)))"
    unfolding assms(3) by (rule warp_displacement [OF assms(2)])
  with pos have "sqrt ((worldX - px) * (worldX - px) + (worldZ - pz) * (worldZ - pz)) = r_s
            \<longrightarrow> warp obj worldX worldZ y = y + (2 * r_s - 30000000000)"
    by (simp add: displacement_at_horizon)
  with displacement_limit_right [of r_s] displacement_jump [OF pos] show ?thesis
    by (intro conjI)
qed

text \<open>An instance: the central body of the initial scene and the point \<open>(r_s, 0)\<close>.\<close>

theorem warp_at_horizon_witness:
  "0 < mass (objects_init ! 2)
   \<and> sqrt ((bh_r_s SagA - 0) * (bh_r_s SagA - 0) + (0 - 0) * (0 - 0)) = bh_r_s SagA
   \<and> warp (objects_init ! 2) (bh_r_s SagA) 0 0 = 0 + (2 * bh_r_s SagA - 30000000000)
   \<and> (displacement (bh_r_s SagA) \<longlongrightarrow> - 30000000000) (at_right (bh_r_s SagA))"
proof -
  have d: "sqrt ((bh_r_s SagA - 0) * (bh_r_s SagA - 0) + (0 - 0) * (0 - 0)) = bh_r_s SagA"
    using attractor_r_s_pos by simp
  from warp_at_horizon [OF attractor_facts, of "bh_r_s SagA" 0 0] attractor_facts(1) d show ?thesis
    by blast
qed

section \<open>The curvature grid: index buffer\<close>

lemma concat_map_upt_length:
  "(\<And>q. q < n \<Longrightarrow> length (f q) = m) \<Longrightarrow> length (concat (map f [0..<n])) = n * m"
  by (induction n) simp_all

lemma concat_map_upt_nth:
  assumes len: "\<And>q. q < n \<Longrightarrow> length (f q) = m" and q: "q < n" and r: "r < m"
  shows "concat (map f [0..<n]) ! (q * m + r) = f q ! r"
  using len q
proof (induction n)
  case 0
  then show ?case by simp
next
  case (Suc n)
  have L: "length (concat (map f [0..<n])) = n * m"
    using Suc.prems(1) by (simp add: concat_map_upt_length)
  show ?case
  proof (cases "q < n")
    case True
    then have "Suc q \<le> n" by simp
    then have "Suc q * m \<le> n * m" by (rule mult_le_mono1)
    with r have lt: "q * m + r < n * m" by simp
    have "concat (map f [0..<n]) ! (q * m + r) = f q ! r"
      using Suc.IH Suc.prems(1) True by simp
    with lt L show ?thesis by (simp add: nth_append)
  next
    case False
    with Suc.prems(2) have "q = n" by simp
    with L show ?thesis by (simp add: nth_append)
  qed
qed

lemma grid_vertices_length: "length (grid_vertices gs objs) = (gs + 1) * (gs + 1)"
  unfolding grid_vertices_def
  using concat_map_upt_length [of "Suc gs" "\<lambda>z. map (\<lambda>x. grid_vertex gs objs z x) [0..<Suc gs]" "Suc gs"]
  by simp

lemma grid_vertices_nth:
  assumes "z \<le> gs" "x \<le> gs"
  shows "grid_vertices gs objs ! (z * (gs + 1) + x) = grid_vertex gs objs z x"
proof -
  have "concat (map (\<lambda>z. map (\<lambda>x. grid_vertex gs objs z x) [0..<Suc gs]) [0..<Suc gs]) ! (z * Suc gs + x)
        = map (\<lambda>x. grid_vertex gs objs z x) [0..<Suc gs] ! x"
    using assms by (intro concat_map_upt_nth) simp_all
  also have "\<dots> = grid_vertex gs objs z x"
    using assms(2) by (simp del: upt_Suc)
  finally show ?thesis by (simp add: grid_vertices_def)
qed

lemma grid_indices_length: "length (grid_indices gs) = 4 * gs * gs"
proof -
  have inner: "\<And>z. length (concat (map (\<lambda>x. (let i = z * (gs + 1) + x in [i, i + 1, i, i + gs + 1])) [0..<gs])) = gs * 4"
    by (rule concat_map_upt_length) (simp add: Let_def)
  have "length (grid_indices gs) = gs * (gs * 4)"
    unfolding grid_indices_def by (rule concat_map_upt_length) (rule inner)
  then show ?thesis by simp
qed

lemma grid_index_cases:
  assumes "k \<in> set (grid_indices gs)"
  obtains z x where "z < gs" "x < gs" "k = z * (gs + 1) + x \<or> k = z * (gs + 1) + x + 1 \<or> k = z * (gs + 1) + x + gs + 1"
  using assms by (auto simp: grid_indices_def Let_def)

lemma cell_corner_bound:
  fixes z x gs :: nat
  assumes "z < gs" "x < gs"
  shows "z * (gs + 1) + x + gs + 1 < (gs + 1) * (gs + 1)"
proof -
  from assms(1) have "Suc z \<le> gs" by simp
  then have "Suc z * (gs + 1) \<le> gs * (gs + 1)" by (rule mult_le_mono1)
  with assms(2) show ?thesis by simp
qed

lemma grid_indices_bound:
  assumes "k \<in> set (grid_indices gs)"
  shows "k < (gs + 1) * (gs + 1)"
proof -
  from assms obtain z x where zx: "z < gs" "x < gs"
    and k: "k = z * (gs + 1) + x \<or> k = z * (gs + 1) + x + 1 \<or> k = z * (gs + 1) + x + gs + 1"
    by (rule grid_index_cases)
  from cell_corner_bound [OF zx] k show ?thesis by auto
qed

lemma line_segments_even_append:
  "even (length xs) \<Longrightarrow> line_segments (xs @ ys) = line_segments xs @ line_segments ys"
  by (induction xs rule: line_segments.induct) simp_all

lemma line_segments_concat_map:
  "(\<And>x. x \<in> set xs \<Longrightarrow> even (length (f x))) \<Longrightarrow>
     line_segments (concat (map f xs)) = concat (map (\<lambda>x. line_segments (f x)) xs)"
  by (induction xs) (simp_all add: line_segments_even_append)

lemma concat_map_even:
  "(\<And>x. x \<in> set xs \<Longrightarrow> even (length (f x))) \<Longrightarrow> even (length (concat (map f xs)))"
  by (induction xs) simp_all

lemma grid_segments:
  "line_segments (grid_indices gs) =
     concat (map (\<lambda>z. concat (map (\<lambda>x. (let i = z * (gs + 1) + x in [(i, i + 1), (i, i + gs + 1)])) [0..<gs])) [0..<gs])"
proof -
  define F :: "nat \<Rightarrow> nat \<Rightarrow> nat list"
    where "F = (\<lambda>z x. (let i = z * (gs + 1) + x in [i, i + 1, i, i + gs + 1]))"
  have F_even: "even (length (F z x))" for z x
    by (simp add: F_def Let_def)
  have F_segs: "line_segments (F z x) = (let i = z * (gs + 1) + x in [(i, i + 1), (i, i + gs + 1)])" for z x
    by (simp add: F_def Let_def)
  have row: "line_segments (concat (map (F z) [0..<gs])) = concat (map (\<lambda>x. line_segments (F z x)) [0..<gs])" for z
    by (rule line_segments_concat_map) (rule F_even)
  have "grid_indices gs = concat (map (\<lambda>z. concat (map (F z) [0..<gs])) [0..<gs])"
    by (simp only: grid_indices_def F_def)
  then have "line_segments (grid_indices gs)
      = concat (map (\<lambda>z. line_segments (concat (map (F z) [0..<gs]))) [0..<gs])"
    by (simp only: line_segments_concat_map concat_map_even F_even)
  then show ?thesis
    by (simp only: row F_segs)
qed

lemma grid_segments_cases:
  assumes "(a, b) \<in> set (line_segments (grid_indices gs))"
  obtains z x where "z < gs" "x < gs" "a = z * (gs + 1) + x" "b = a + 1 \<or> b = a + gs + 1"
  using assms unfolding grid_segments by (auto simp: Let_def)


lemma world_coord_Suc: "world_coord gs (Suc x) = world_coord gs x + spacing"
  by (simp add: world_coord_def algebra_simps)

lemma grid_segment_adjacent:
  assumes "(a, b) \<in> set (line_segments (grid_indices gs))"
  shows "(b = a + 1 \<or> b = a + gs + 1) \<and> b < (gs + 1) * (gs + 1)
     \<and> (case grid_vertices gs objs ! a of (ax, ay, az) \<Rightarrow>
         case grid_vertices gs objs ! b of (bx, by, bz) \<Rightarrow>
           (bx = ax + spacing \<and> bz = az) \<or> (bx = ax \<and> bz = az + spacing))"
proof -
  from assms obtain z x where zx: "z < gs" "x < gs" and a: "a = z * (gs + 1) + x"
    and b: "b = a + 1 \<or> b = a + gs + 1"
    by (rule grid_segments_cases)
  have va: "grid_vertices gs objs ! a = grid_vertex gs objs z x"
    unfolding a using zx by (intro grid_vertices_nth) simp_all
  have bound: "b < (gs + 1) * (gs + 1)"
    using cell_corner_bound [OF zx] a b by auto
  from b show ?thesis
  proof
    assume b1: "b = a + 1"
    then have "b = z * (gs + 1) + (x + 1)" by (simp add: a)
    then have "grid_vertices gs objs ! b = grid_vertex gs objs z (x + 1)"
      using zx grid_vertices_nth [of z gs "x + 1" objs] by simp
    with va b1 bound show ?thesis
      by (simp add: grid_vertex_def Let_def world_coord_Suc)
  next
    assume b2: "b = a + gs + 1"
    then have "b = (z + 1) * (gs + 1) + x" by (simp add: a)
    then have "grid_vertices gs objs ! b = grid_vertex gs objs (z + 1) x"
      using zx grid_vertices_nth [of "z + 1" gs x objs] by simp
    with va b2 bound show ?thesis
      by (simp add: grid_vertex_def Let_def world_coord_Suc)
  qed
qed

lemma first_segment: "0 < gs \<Longrightarrow> (0, 1) \<in> set (line_segments (grid_indices gs))"
  unfolding grid_segments by (auto simp: Let_def intro!: bexI [of _ 0])

text \<open>
  C10: the generator emits \<open>(gridSize + 1)\<^sup>2\<close> vertices and \<open>4 * gridSize\<^sup>2\<close> indices; every
  index is below the vertex count; and every segment that \<^verbatim>\<open>GL_LINES\<close> draws joins a
  vertex \<open>a\<close> to \<open>a + 1\<close> or to \<open>a + gridSize + 1\<close>, which is the vertex one \<open>spacing\<close>
  further along the x axis or along the z axis.
\<close>

theorem generateGrid_indices_valid:
  "case generateGrid objs of (vertices, indices) \<Rightarrow>
     length vertices = (gridSize + 1) * (gridSize + 1)
     \<and> length indices = 4 * gridSize * gridSize
     \<and> (\<forall>i \<in> set indices. i < length vertices)
     \<and> (\<forall>(a, b) \<in> set (line_segments indices).
          (b = a + 1 \<or> b = a + gridSize + 1) \<and> b < length vertices
          \<and> (case vertices ! a of (ax, ay, az) \<Rightarrow>
              case vertices ! b of (bx, by, bz) \<Rightarrow>
                (bx = ax + spacing \<and> bz = az) \<or> (bx = ax \<and> bz = az + spacing)))"
proof -
  let ?vs = "grid_vertices gridSize objs" and ?is = "grid_indices gridSize"
  have len_vs: "length ?vs = (gridSize + 1) * (gridSize + 1)"
    by (rule grid_vertices_length)
  have len_is: "length ?is = 4 * gridSize * gridSize"
    by (rule grid_indices_length)
  have bound: "\<forall>i \<in> set ?is. i < length ?vs"
    using grid_indices_bound [of _ gridSize] by (simp only: len_vs) blast
  have adj: "\<forall>(a, b) \<in> set (line_segments ?is).
          (b = a + 1 \<or> b = a + gridSize + 1) \<and> b < length ?vs
          \<and> (case ?vs ! a of (ax, ay, az) \<Rightarrow>
              case ?vs ! b of (bx, by, bz) \<Rightarrow>
                (bx = ax + spacing \<and> bz = az) \<or> (bx = ax \<and> bz = az + spacing))"
  proof (intro ballI, clarify)
    fix a b
    assume "(a, b) \<in> set (line_segments ?is)"
    from grid_segment_adjacent [OF this, of objs]
    show "(b = a + 1 \<or> b = a + gridSize + 1) \<and> b < length ?vs
          \<and> (case ?vs ! a of (ax, ay, az) \<Rightarrow>
              case ?vs ! b of (bx, by, bz) \<Rightarrow>
                (bx = ax + spacing \<and> bz = az) \<or> (bx = ax \<and> bz = az + spacing))"
      by (simp only: len_vs)
  qed
  from len_vs len_is bound adj show ?thesis
    unfolding generateGrid_def prod.case by (intro conjI)
qed

theorem generateGrid_indices_valid_witness:
  "length (fst (generateGrid objects_init)) = 676
   \<and> length (snd (generateGrid objects_init)) = 2500
   \<and> (0, 1) \<in> set (line_segments (snd (generateGrid objects_init)))
   \<and> (1 :: nat) < length (fst (generateGrid objects_init))
   \<and> (fst (fst (generateGrid objects_init) ! 1) = fst (fst (generateGrid objects_init) ! 0) + spacing
        \<and> snd (snd (fst (generateGrid objects_init) ! 1)) = snd (snd (fst (generateGrid objects_init) ! 0))
      \<or> fst (fst (generateGrid objects_init) ! 1) = fst (fst (generateGrid objects_init) ! 0)
        \<and> snd (snd (fst (generateGrid objects_init) ! 1)) = snd (snd (fst (generateGrid objects_init) ! 0)) + spacing)"
proof -
  obtain vs ixs where g: "generateGrid objects_init = (vs, ixs)"
    by (cases "generateGrid objects_init")
  from g have ixs: "ixs = grid_indices 25"
    by (simp only: generateGrid_def gridSize_def prod.inject)
  have m: "(0, 1) \<in> set (line_segments ixs)"
    unfolding ixs by (rule first_segment) simp
  have all: "length vs = (gridSize + 1) * (gridSize + 1)
     \<and> length ixs = 4 * gridSize * gridSize
     \<and> (\<forall>i \<in> set ixs. i < length vs)
     \<and> (\<forall>(a, b) \<in> set (line_segments ixs).
          (b = a + 1 \<or> b = a + gridSize + 1) \<and> b < length vs
          \<and> (case vs ! a of (ax, ay, az) \<Rightarrow>
              case vs ! b of (bx, by, bz) \<Rightarrow>
                (bx = ax + spacing \<and> bz = az) \<or> (bx = ax \<and> bz = az + spacing)))"
    using generateGrid_indices_valid [of objects_init] unfolding g prod.case .
  then have seg: "(1 :: nat) < length vs
     \<and> (case vs ! 0 of (ax, ay, az) \<Rightarrow>
              case vs ! 1 of (bx, by, bz) \<Rightarrow>
                (bx = ax + spacing \<and> bz = az) \<or> (bx = ax \<and> bz = az + spacing))"
    using bspec [OF all [THEN conjunct2, THEN conjunct2, THEN conjunct2] m]
    by (simp only: prod.case)
  from all have "length vs = 676" "length ixs = 2500"
    by (simp_all add: gridSize_def)
  with seg m show ?thesis
    unfolding g by (simp add: case_prod_beta)
qed

section \<open>The integrator: two equal bodies\<close>

lemma glm_length_scale: "glm_length (vec3_scale u k) = \<bar>k\<bar> * glm_length u"
proof (cases u)
  case (fields a b c)
  have "a * k * (a * k) + b * k * (b * k) + c * k * (c * k) = (k * k) * (a * a + b * b + c * c)"
    by (simp add: algebra_simps)
  then show ?thesis
    by (simp add: fields glm_length_def vec3_scale_def real_sqrt_mult)
qed

lemma vec3_div_scale: "k \<noteq> 0 \<Longrightarrow> vec3_div (vec3_scale u k) k = u"
  by (cases u) (simp add: vec3_div_def vec3_scale_def)

lemma accumulate_collinear:
  assumes delta: "vec3_sub (vec3_of (posRadius obj2)) (vec3_of (posRadius obj)) = vec3_scale u k"
    and unit: "glm_length u = 1" and k: "0 < k" and m: "mass obj \<noteq> 0"
  shows "accumulate obj obj2 acc = vec3_add acc (vec3_scale u (G * mass obj2 / (k * k)))"
proof -
  have len: "glm_length (vec3_scale u k) = k"
    using unit k by (simp add: glm_length_scale)
  have dir: "vec3_div (vec3_scale u k) k = u"
    using k by (simp add: vec3_div_scale)
  have "G * mass obj * mass obj2 / (k * k) / mass obj = G * mass obj2 / (k * k)"
    using m by simp
  with len dir k show ?thesis
    by (simp add: accumulate_def delta Let_def)
qed


lemma vec3_scale_scale: "vec3_scale (vec3_scale u a) b = vec3_scale u (a * b)"
  by (cases u) (simp add: vec3_scale_def)

lemma vec3_sub_scale: "vec3_sub (vec3_scale u a) (vec3_scale u b) = vec3_scale u (a - b)"
  by (cases u) (simp add: vec3_scale_def vec3_sub_def algebra_simps)

lemma vec3_add_scale: "vec3_add (vec3_scale u a) (vec3_scale u b) = vec3_scale u (a + b)"
  by (cases u) (simp add: vec3_scale_def vec3_add_def algebra_simps)

lemma vec3_of_vec4_of: "vec3_of (vec4_of v w) = v"
  by (cases v) (simp add: vec3_of_def vec4_of_def)

lemma vec4_add_vec4_of: "vec4_add (vec4_of a w) (vec4_of b 0) = vec4_of (vec3_add a b) w"
  by (cases a; cases b) (simp add: vec4_add_def vec4_of_def vec3_add_def)

lemma total_acc_pair:
  "total_acc 0 [b1, b2] = accumulate b1 b2 (0, 0, 0)"
  "total_acc (Suc 0) [b1, b2] = accumulate b2 b1 (0, 0, 0)"
  by (simp_all add: total_acc_def)

lemma gravity_step_pair:
  "gravity_step [b1, b2] = step_body (Suc 0) (step_body 0 [b1, b2])"
  by (simp add: gravity_step_def)

lemma step_body_pair:
  "step_body 0 [b1, b2] =
     [b1\<lparr>velocity := vec3_add (velocity b1) (accumulate b1 b2 (0, 0, 0)),
         posRadius := vec4_add (posRadius b1) (vec4_of (vec3_add (velocity b1) (accumulate b1 b2 (0, 0, 0))) 0)\<rparr>, b2]"
  "step_body (Suc 0) [b1, b2] =
     [b1, b2\<lparr>velocity := vec3_add (velocity b2) (accumulate b2 b1 (0, 0, 0)),
         posRadius := vec4_add (posRadius b2) (vec4_of (vec3_add (velocity b2) (accumulate b2 b1 (0, 0, 0))) 0)\<rparr>]"
  by (simp_all add: step_body_def advance_def total_acc_pair Let_def)

lemma two_body_step:
  assumes unit: "glm_length u = 1" and r: "0 < r" and m: "0 < m"
    and a1: "a1 = G * m / ((2 * r) * (2 * r))" and near: "a1 < 2 * r"
    and a2: "a2 = G * m / ((2 * r - a1) * (2 * r - a1))"
  shows "gravity_step (symmetric_pair (vec3_scale u r) m rad) =
     [ \<lparr> posRadius = vec4_of (vec3_scale u (r - a1)) rad, color = (1, 1, 1, 1), mass = m,
         velocity = vec3_scale u (- a1) \<rparr>,
       \<lparr> posRadius = vec4_of (vec3_scale u (a2 - r)) rad, color = (1, 1, 1, 1), mass = m,
         velocity = vec3_scale u a2 \<rparr> ]"
proof -
  let ?b1 = "\<lparr> posRadius = vec4_of (vec3_scale u r) rad, color = (1, 1, 1, 1), mass = m,
         velocity = (0, 0, 0) \<rparr>"
  let ?b2 = "\<lparr> posRadius = vec4_of (vec3_scale u (- r)) rad, color = (1, 1, 1, 1), mass = m,
         velocity = (0, 0, 0) \<rparr>"
  let ?b1' = "\<lparr> posRadius = vec4_of (vec3_scale u (r - a1)) rad, color = (1, 1, 1, 1), mass = m,
         velocity = vec3_scale u (- a1) \<rparr>"
  have scene: "symmetric_pair (vec3_scale u r) m rad = [?b1, ?b2]"
    by (simp add: symmetric_pair_def vec3_scale_scale)
  have unit': "glm_length (vec3_scale u (- 1)) = 1"
    using unit by (simp add: glm_length_scale)
  have "vec3_sub (vec3_of (posRadius ?b2)) (vec3_of (posRadius ?b1)) = vec3_scale (vec3_scale u (- 1)) (2 * r)"
    by (simp add: vec3_of_vec4_of vec3_sub_scale vec3_scale_scale)
  from accumulate_collinear [OF this unit', of "(0, 0, 0)"] r m
  have acc1: "accumulate ?b1 ?b2 (0, 0, 0) = vec3_scale u (- a1)"
    by (simp add: vec3_add_zero vec3_scale_scale a1)
  have first: "step_body 0 [?b1, ?b2] = [?b1', ?b2]"
    by (simp add: step_body_pair acc1 vec3_add_zero vec4_add_vec4_of vec3_add_scale)
  have "vec3_sub (vec3_of (posRadius ?b1')) (vec3_of (posRadius ?b2)) = vec3_scale u (2 * r - a1)"
    by (simp add: vec3_of_vec4_of vec3_sub_scale)
  from accumulate_collinear [OF this unit, of "(0, 0, 0)"] near m
  have acc2: "accumulate ?b2 ?b1' (0, 0, 0) = vec3_scale u a2"
    by (simp add: vec3_add_zero a2)
  have "step_body (Suc 0) [?b1', ?b2] = [?b1', \<lparr> posRadius = vec4_of (vec3_scale u (a2 - r)) rad,
         color = (1, 1, 1, 1), mass = m, velocity = vec3_scale u a2 \<rparr>]"
    by (simp add: step_body_pair acc2 vec3_add_zero vec4_add_vec4_of vec3_add_scale)
  with first show ?thesis
    by (simp only: scene gravity_step_pair)
qed

lemma two_body_speeds:
  assumes r: "0 < r" and m: "0 < m"
    and a1: "a1 = G * m / ((2 * r) * (2 * r))" and near: "a1 < 2 * r"
    and a2: "a2 = G * m / ((2 * r - a1) * (2 * r - a1))"
  shows "0 < a1" and "a1 < a2"
proof -
  have Gm: "0 < G * m" using m by (simp add: G_def)
  then show pos: "0 < a1" using r by (simp add: a1)
  have "0 < 2 * r - a1" using near by simp
  moreover have "2 * r - a1 < 2 * r" using pos by simp
  ultimately have "(2 * r - a1) * (2 * r - a1) < (2 * r) * (2 * r)"
    by (intro mult_strict_mono) simp_all
  moreover have "0 < (2 * r - a1) * (2 * r - a1)" using near by simp
  ultimately show "a1 < a2"
    unfolding a1 a2 using Gm by (intro divide_strict_left_mono) simp_all
qed


lemma glm_length_axis:
  "glm_length (a, 0, 0) = \<bar>a\<bar>"
  "glm_length (0, 0, a) = \<bar>a\<bar>"
  by (simp_all add: glm_length_def)

lemma unit_direction:
  assumes "0 < glm_length p"
  shows "glm_length (vec3_div p (glm_length p)) = 1"
    and "vec3_scale (vec3_div p (glm_length p)) (glm_length p) = p"
proof -
  have "vec3_div p (glm_length p) = vec3_scale p (1 / glm_length p)"
    by (cases p) (simp add: vec3_div_def vec3_scale_def)
  with assms show "glm_length (vec3_div p (glm_length p)) = 1"
    by (simp add: glm_length_scale)
  from assms show "vec3_scale (vec3_div p (glm_length p)) (glm_length p) = p"
    by (cases p) (simp add: vec3_div_def vec3_scale_def)
qed

text \<open>
  C2 as stated (two equal bodies at rest, placed symmetrically: after any number of steps
  the velocities are equal in magnitude and opposite, and the centre of mass stays where
  it is) fails already at the first step. The loop updates the bodies in place, one after
  the other, so the second body is attracted by the first body's new, nearer position and
  gets the larger speed. For two bodies of mass \<open>10\<^sup>1\<^sup>0\<close> at \<open>(1, 0, 0)\<close> and
  \<open>(-1, 0, 0)\<close> the speeds after one step are \<open>0.1668575\<close> and about \<open>0.1986\<close>; the sum of
  the velocities and the sum of the positions are no longer zero.
\<close>

theorem two_body_momentum_not_conserved:
  "velocity (gravity_step (symmetric_pair (1, 0, 0) 10000000000 1) ! 0) = (- 0.1668575, 0, 0)
   \<and> velocity (gravity_step (symmetric_pair (1, 0, 0) 10000000000 1) ! 1)
       = (0.66743 / (1.8331425 * 1.8331425), 0, 0)
   \<and> glm_length (velocity (gravity_step (symmetric_pair (1, 0, 0) 10000000000 1) ! 0))
       < glm_length (velocity (gravity_step (symmetric_pair (1, 0, 0) 10000000000 1) ! 1))
   \<and> vec3_add (velocity (gravity_step (symmetric_pair (1, 0, 0) 10000000000 1) ! 0))
        (velocity (gravity_step (symmetric_pair (1, 0, 0) 10000000000 1) ! 1)) \<noteq> (0, 0, 0)
   \<and> vec3_add (vec3_of (posRadius (gravity_step (symmetric_pair (1, 0, 0) 10000000000 1) ! 0)))
        (vec3_of (posRadius (gravity_step (symmetric_pair (1, 0, 0) 10000000000 1) ! 1))) \<noteq> (0, 0, 0)"
proof -
  have a1: "(0.1668575 :: real) = G * 10000000000 / ((2 * 1) * (2 * 1))"
    by (simp add: G_def)
  have a2: "(0.66743 / (1.8331425 * 1.8331425) :: real)
      = G * 10000000000 / ((2 * 1 - 0.1668575) * (2 * 1 - 0.1668575))"
    by (simp add: G_def)
  have "gravity_step (symmetric_pair (vec3_scale (1, 0, 0) 1) 10000000000 1) =
     [ \<lparr> posRadius = vec4_of (vec3_scale (1, 0, 0) (1 - 0.1668575)) 1, color = (1, 1, 1, 1),
         mass = 10000000000, velocity = vec3_scale (1, 0, 0) (- 0.1668575) \<rparr>,
       \<lparr> posRadius = vec4_of (vec3_scale (1, 0, 0) (0.66743 / (1.8331425 * 1.8331425) - 1)) 1,
         color = (1, 1, 1, 1), mass = 10000000000,
         velocity = vec3_scale (1, 0, 0) (0.66743 / (1.8331425 * 1.8331425)) \<rparr> ]"
    by (rule two_body_step [OF _ _ _ a1 _ a2]) (simp_all add: glm_length_axis)
  then show ?thesis
    by (simp add: vec3_scale_def vec4_of_def vec3_of_def vec3_add_def glm_length_axis)
qed

text \<open>
  C2, amended: for two bodies of equal mass \<open>m > 0\<close> at rest at \<open>p\<close> and \<open>-p\<close>, at
  distance \<open>r > 0\<close> from the origin, after the first integration step the two velocities
  are opposite in direction and point toward each other (the first along \<open>-p\<close>, the
  second along \<open>p\<close>), provided the first body's step \<open>a1 = G m / (2 r)\<^sup>2\<close> is shorter than the
  distance \<open>2 r\<close> between them. Their magnitudes need not be equal: the first body's speed
  is \<open>a1\<close>; the second body is attracted from the first body's updated position, at a
  distance \<open>d\<close> of at most \<open>2 r\<close>, and its speed is \<open>G m / d\<^sup>2\<close>, which is at least \<open>a1\<close>.
  Nothing is said about later steps, the total momentum or the centre of mass.
\<close>

theorem two_body_first_step:
  assumes "0 < m" and "0 < glm_length p" and "r = glm_length p"
    and "a1 = G * m / ((2 * r) * (2 * r))" and "a1 < 2 * r"
    and "d = glm_length (vec3_sub (vec3_of (posRadius (gravity_step (symmetric_pair p m rad) ! 0)))
               (vec3_scale p (- 1)))"
  shows "velocity (gravity_step (symmetric_pair p m rad) ! 0) = vec3_scale (vec3_div p r) (- a1)
     \<and> velocity (gravity_step (symmetric_pair p m rad) ! 1) = vec3_scale (vec3_div p r) (G * m / (d * d))
     \<and> glm_length (velocity (gravity_step (symmetric_pair p m rad) ! 0)) = a1
     \<and> glm_length (velocity (gravity_step (symmetric_pair p m rad) ! 1)) = G * m / (d * d)
     \<and> 0 < a1 \<and> 0 < d \<and> d \<le> 2 * r \<and> a1 \<le> G * m / (d * d)"
proof -
  define a2 where "a2 = G * m / ((2 * r - a1) * (2 * r - a1))"
  have r: "0 < r" using assms(2,3) by simp
  have unit: "glm_length (vec3_div p r) = 1" and p: "vec3_scale (vec3_div p r) r = p"
    using unit_direction [OF assms(2)] assms(3) by simp_all
  note speeds = two_body_speeds [OF r assms(1) assms(4,5) a2_def]
  have step: "gravity_step (symmetric_pair (vec3_scale (vec3_div p r) r) m rad) =
     [ \<lparr> posRadius = vec4_of (vec3_scale (vec3_div p r) (r - a1)) rad, color = (1, 1, 1, 1), mass = m,
         velocity = vec3_scale (vec3_div p r) (- a1) \<rparr>,
       \<lparr> posRadius = vec4_of (vec3_scale (vec3_div p r) (a2 - r)) rad, color = (1, 1, 1, 1), mass = m,
         velocity = vec3_scale (vec3_div p r) a2 \<rparr> ]"
    by (rule two_body_step [OF unit r assms(1) assms(4,5) a2_def])
  have "vec3_sub (vec3_scale (vec3_div p r) (r - a1)) (vec3_scale (vec3_scale (vec3_div p r) r) (- 1))
      = vec3_scale (vec3_div p r) (2 * r - a1)"
    by (simp add: vec3_scale_scale vec3_sub_scale)
  then have "d = \<bar>2 * r - a1\<bar>"
    using step unit by (simp add: assms(6) p vec3_of_vec4_of glm_length_scale)
  with assms(5) have d: "d = 2 * r - a1" by simp
  then have a2: "G * m / (d * d) = a2" by (simp add: a2_def)
  from step speeds unit d assms(5) show ?thesis
    unfolding a2 by (simp add: p glm_length_scale)
qed

text \<open>An instance: mass \<open>10\<^sup>1\<^sup>1\<close> at \<open>(0, 0, 2)\<close> and \<open>(0, 0, -2)\<close>; the first body moves
  to \<open>(0, 0, 1.58285625)\<close>, at distance \<open>3.58285625\<close> from the second.\<close>

theorem two_body_first_step_witness:
  "posRadius (gravity_step (symmetric_pair (0, 0, 2) 100000000000 1) ! 0) = (0, 0, 1.58285625, 1)
   \<and> velocity (gravity_step (symmetric_pair (0, 0, 2) 100000000000 1) ! 0) = (0, 0, - 0.41714375)
   \<and> velocity (gravity_step (symmetric_pair (0, 0, 2) 100000000000 1) ! 1)
       = (0, 0, 6.6743 / (3.58285625 * 3.58285625))
   \<and> (0.41714375 :: real) \<le> 6.6743 / (3.58285625 * 3.58285625)"
proof -
  have len: "glm_length (0, 0, 2) = 2" by (simp add: glm_length_axis)
  have a1: "(0.41714375 :: real) = G * 100000000000 / ((2 * 2) * (2 * 2))"
    by (simp add: G_def)
  have a2: "(6.6743 / (3.58285625 * 3.58285625) :: real)
      = G * 100000000000 / ((2 * 2 - 0.41714375) * (2 * 2 - 0.41714375))"
    by (simp add: G_def)
  have "gravity_step (symmetric_pair (vec3_scale (0, 0, 1) 2) 100000000000 1) =
     [ \<lparr> posRadius = vec4_of (vec3_scale (0, 0, 1) (2 - 0.41714375)) 1, color = (1, 1, 1, 1),
         mass = 100000000000, velocity = vec3_scale (0, 0, 1) (- 0.41714375) \<rparr>,
       \<lparr> posRadius = vec4_of (vec3_scale (0, 0, 1) (6.6743 / (3.58285625 * 3.58285625) - 2)) 1,
         color = (1, 1, 1, 1), mass = 100000000000,
         velocity = vec3_scale (0, 0, 1) (6.6743 / (3.58285625 * 3.58285625)) \<rparr> ]"
    by (rule two_body_step [OF _ _ _ a1 _ a2]) (simp_all add: glm_length_axis)
  then have pos: "posRadius (gravity_step (symmetric_pair (0, 0, 2) 100000000000 1) ! 0)
      = (0, 0, 1.58285625, 1)"
    by (simp add: vec3_scale_def vec4_of_def)
  then have d: "(3.58285625 :: real) = glm_length (vec3_sub
      (vec3_of (posRadius (gravity_step (symmetric_pair (0, 0, 2) 100000000000 1) ! 0)))
      (vec3_scale (0, 0, 2) (- 1)))"
    by (simp add: vec3_of_def vec3_scale_def vec3_sub_def glm_length_axis)
  have "velocity (gravity_step (symmetric_pair (0, 0, 2) 100000000000 1) ! 0)
          = vec3_scale (vec3_div (0, 0, 2) 2) (- 0.41714375)
     \<and> velocity (gravity_step (symmetric_pair (0, 0, 2) 100000000000 1) ! 1)
          = vec3_scale (vec3_div (0, 0, 2) 2) (G * 100000000000 / (3.58285625 * 3.58285625))
     \<and> glm_length (velocity (gravity_step (symmetric_pair (0, 0, 2) 100000000000 1) ! 0)) = 0.41714375
     \<and> glm_length (velocity (gravity_step (symmetric_pair (0, 0, 2) 100000000000 1) ! 1))
          = G * 100000000000 / (3.58285625 * 3.58285625)
     \<and> (0 :: real) < 0.41714375 \<and> (0 :: real) < 3.58285625 \<and> (3.58285625 :: real) \<le> 2 * 2
     \<and> (0.41714375 :: real) \<le> G * 100000000000 / (3.58285625 * 3.58285625)"
    by (rule two_body_first_step [OF _ _ _ a1 _ d]) (simp_all add: len)
  with pos show ?thesis
    by (simp add: vec3_scale_def vec3_div_def G_def)
qed

section \<open>The integrator: the central body\<close>

lemma total_acc_triple:
  assumes "length S = 3"
  shows "total_acc 0 S = accumulate (S ! 0) (S ! 2) (accumulate (S ! 0) (S ! 1) (0, 0, 0))"
    and "total_acc (Suc 0) S = accumulate (S ! 1) (S ! 2) (accumulate (S ! 1) (S ! 0) (0, 0, 0))"
    and "total_acc 2 S = accumulate (S ! 2) (S ! 1) (accumulate (S ! 2) (S ! 0) (0, 0, 0))"
proof -
  have "[0..<length S] = [0, 1, 2]"
    by (simp add: assms upt_rec)
  then show "total_acc 0 S = accumulate (S ! 0) (S ! 2) (accumulate (S ! 0) (S ! 1) (0, 0, 0))"
    and "total_acc (Suc 0) S = accumulate (S ! 1) (S ! 2) (accumulate (S ! 1) (S ! 0) (0, 0, 0))"
    and "total_acc 2 S = accumulate (S ! 2) (S ! 1) (accumulate (S ! 2) (S ! 0) (0, 0, 0))"
    by (simp_all add: total_acc_def)
qed

text \<open>The x component of what one body adds to the acceleration of another.\<close>

lemma accumulate_x:
  assumes "posRadius obj = (x1, y1, z1, w1)" "posRadius obj2 = (x2, y2, z2, w2)"
    and "d = sqrt ((x2 - x1) * (x2 - x1) + (y2 - y1) * (y2 - y1) + (z2 - z1) * (z2 - z1))"
  shows "fst (accumulate obj obj2 acc)
     = (if d > 0 then fst acc + (x2 - x1) / d * (G * mass obj * mass obj2 / (d * d) / mass obj) else fst acc)"
  by (cases acc) (simp add: accumulate_def assms vec3_of_def vec3_sub_def glm_length_def
      vec3_div_def vec3_scale_def vec3_add_def Let_def)

lemma accumulate_x_mono:
  assumes m: "0 < mass obj" "0 < mass obj2"
    and le: "fst (posRadius obj) \<le> fst (posRadius obj2)"
  shows "fst acc \<le> fst (accumulate obj obj2 acc)"
proof -
  obtain x1 y1 z1 w1 where p1: "posRadius obj = (x1, y1, z1, w1)" by (cases "posRadius obj")
  obtain x2 y2 z2 w2 where p2: "posRadius obj2 = (x2, y2, z2, w2)" by (cases "posRadius obj2")
  define d where "d = sqrt ((x2 - x1) * (x2 - x1) + (y2 - y1) * (y2 - y1) + (z2 - z1) * (z2 - z1))"
  have G: "0 < G" by (simp add: G_def)
  from le p1 p2 have dx: "0 \<le> x2 - x1" by simp
  have "0 \<le> (x2 - x1) / d * (G * mass obj * mass obj2 / (d * d) / mass obj)" if "0 < d"
    using that dx m G by simp
  then show ?thesis
    unfolding accumulate_x [OF p1 p2 d_def] by simp
qed

lemma accumulate_x_strict:
  assumes m: "0 < mass obj" "0 < mass obj2"
    and less: "fst (posRadius obj) < fst (posRadius obj2)"
  shows "fst acc < fst (accumulate obj obj2 acc)"
proof -
  obtain x1 y1 z1 w1 where p1: "posRadius obj = (x1, y1, z1, w1)" by (cases "posRadius obj")
  obtain x2 y2 z2 w2 where p2: "posRadius obj2 = (x2, y2, z2, w2)" by (cases "posRadius obj2")
  define d where "d = sqrt ((x2 - x1) * (x2 - x1) + (y2 - y1) * (y2 - y1) + (z2 - z1) * (z2 - z1))"
  have G: "0 < G" by (simp add: G_def)
  from less p1 p2 have dx: "0 < x2 - x1" by simp
  then have "0 < (x2 - x1) * (x2 - x1)" by simp
  moreover have "0 \<le> (y2 - y1) * (y2 - y1)" "0 \<le> (z2 - z1) * (z2 - z1)" by simp_all
  ultimately have "0 < (x2 - x1) * (x2 - x1) + (y2 - y1) * (y2 - y1) + (z2 - z1) * (z2 - z1)"
    by linarith
  then have d: "0 < d" by (simp add: d_def)
  then have "0 < (x2 - x1) / d * (G * mass obj * mass obj2 / (d * d) / mass obj)"
    using dx m G by simp
  with d show ?thesis
    unfolding accumulate_x [OF p1 p2 d_def] by simp
qed

lemma accumulate_x_lower:
  assumes m: "0 < mass obj" "0 < mass obj2"
    and p1: "posRadius obj = (x1, y1, z1, w1)" and p2: "posRadius obj2 = (x2, y2, z2, w2)"
    and s: "s = (x2 - x1) * (x2 - x1) + (y2 - y1) * (y2 - y1) + (z2 - z1) * (z2 - z1)"
  shows "fst acc - G * mass obj2 / s \<le> fst (accumulate obj obj2 acc)"
proof -
  define d where "d = sqrt ((x2 - x1) * (x2 - x1) + (y2 - y1) * (y2 - y1) + (z2 - z1) * (z2 - z1))"
  have G: "0 < G" by (simp add: G_def)
  have s0: "0 \<le> s" by (simp add: s)
  have dd: "d * d = s" using s0 by (simp add: d_def s)
  have bound: "0 \<le> G * mass obj2 / s" using G m s0 by simp
  show ?thesis
  proof (cases "0 < d")
    case True
    have "(x2 - x1) * (x2 - x1) \<le> s" by (simp add: s)
    then have "\<bar>x2 - x1\<bar> \<le> d"
      unfolding d_def s [symmetric] by (rule real_le_rsqrt [unfolded power2_eq_square, of "\<bar>x2 - x1\<bar>", simplified])
    then have "- 1 \<le> (x2 - x1) / d" using True by (simp add: field_simps abs_le_iff)
    then have "- 1 * (G * mass obj2 / s) \<le> (x2 - x1) / d * (G * mass obj2 / s)"
      using bound by (intro mult_right_mono) simp_all
    moreover have "G * mass obj * mass obj2 / (d * d) / mass obj = G * mass obj2 / s"
      using m by (simp add: dd)
    ultimately show ?thesis
      unfolding accumulate_x [OF p1 p2 d_def] using True by simp
  next
    case False
    with bound show ?thesis
      unfolding accumulate_x [OF p1 p2 d_def] by simp
  qed
qed


lemma advance_fields:
  "mass (advance obj acc) = mass obj"
  "fst (velocity (advance obj acc)) = fst (velocity obj) + fst acc"
  "fst (posRadius (advance obj acc)) = fst (posRadius obj) + (fst (velocity obj) + fst acc)"
  by (cases "posRadius obj"; cases "velocity obj"; cases acc;
      simp add: advance_def Let_def vec3_add_def vec4_add_def vec4_of_def)+

lemma gravity_step_triple:
  "gravity_step [a, b, c] =
     [advance a (total_acc 0 [a, b, c]),
      advance b (total_acc (Suc 0) [advance a (total_acc 0 [a, b, c]), b, c]),
      advance c (total_acc 2 [advance a (total_acc 0 [a, b, c]),
                              advance b (total_acc (Suc 0) [advance a (total_acc 0 [a, b, c]), b, c]), c])]"
proof -
  have "[0..<length [a, b, c]] = [0, 1, 2]"
    by (simp add: upt_rec)
  then show ?thesis
    by (simp add: gravity_step_def step_body_def numeral_2_eq_2)
qed

lemma attractor_leaves_origin_x:
  "0 < fst (velocity (gravity_step objects_init ! 2))
   \<and> 0 < fst (posRadius (gravity_step objects_init ! 2))"
proof -
  define b0 :: ObjectData where "b0 = \<lparr> posRadius = (400000000000, 0, 0, 40000000000), color = (1, 1, 0, 1),
         mass = 198892 * 10 ^ 25, velocity = (0, 0, 0) \<rparr>"
  define b1 :: ObjectData where "b1 = \<lparr> posRadius = (0, 0, 400000000000, 40000000000), color = (1, 0, 0, 1),
         mass = 198892 * 10 ^ 25, velocity = (0, 0, 0) \<rparr>"
  define b2 :: ObjectData where "b2 = \<lparr> posRadius = (0, 0, 0, bh_r_s SagA), color = (0, 0, 0, 1),
         mass = bh_mass SagA, velocity = (0, 0, 0) \<rparr>"
  define a' where "a' = advance b0 (total_acc 0 [b0, b1, b2])"
  define b' where "b' = advance b1 (total_acc (Suc 0) [a', b1, b2])"
  define c' where "c' = advance b2 (total_acc 2 [a', b', b2])"
  have init: "objects_init = [b0, b1, b2]"
    by (simp add: objects_init_def b0_def b1_def b2_def)
  have step: "gravity_step objects_init = [a', b', c']"
    unfolding init gravity_step_triple a'_def b'_def c'_def ..
  have m: "0 < mass b0" "0 < mass b1" "0 < mass b2"
    by (simp_all add: b0_def b1_def b2_def SagA_def BlackHole_new_def)
  have m': "0 < mass a'" "0 < mass b'"
    using m by (simp_all add: a'_def b'_def advance_fields)
  \<comment> \<open>the first body is pulled towards the origin, but by less than its distance\<close>
  have p0: "posRadius b0 = (400000000000, 0, 0, 40000000000)"
    and p1: "posRadius b1 = (0, 0, 400000000000, 40000000000)"
    and p2: "posRadius b2 = (0, 0, 0, bh_r_s SagA)"
    by (simp_all add: b0_def b1_def b2_def)
  have "- G * mass b1 / 320000000000000000000000 \<le> fst (accumulate b0 b1 (0, 0, 0))"
    using accumulate_x_lower [OF m(1) m(2) p0 p1, of _ "(0, 0, 0)"] by simp
  moreover have "fst (accumulate b0 b1 (0, 0, 0)) - G * mass b2 / 160000000000000000000000
          \<le> fst (accumulate b0 b2 (accumulate b0 b1 (0, 0, 0)))"
    using accumulate_x_lower [OF m(1) m(3) p0 p2, of _ "accumulate b0 b1 (0, 0, 0)"] by simp
  ultimately have "- G * mass b1 / 320000000000000000000000 - G * mass b2 / 160000000000000000000000
          \<le> fst (total_acc 0 [b0, b1, b2])"
    by (simp add: total_acc_triple)
  moreover have "- 400000000000 < - G * mass b1 / 320000000000000000000000 - G * mass b2 / 160000000000000000000000"
    by (simp add: G_def b1_def b2_def SagA_def BlackHole_new_def)
  ultimately have xa: "0 < fst (posRadius a')"
    by (simp add: a'_def advance_fields b0_def)
  \<comment> \<open>the second body, at \<open>x = 0\<close>, is pulled towards the first\<close>
  have "0 < fst (accumulate b1 a' (0, 0, 0))"
    using accumulate_x_strict [OF m(2) m'(1), of "(0, 0, 0)"] xa by (simp add: b1_def)
  also have "\<dots> \<le> fst (accumulate b1 b2 (accumulate b1 a' (0, 0, 0)))"
    using m(2) m(3) by (intro accumulate_x_mono) (simp_all add: b1_def b2_def)
  finally have "0 < fst (total_acc (Suc 0) [a', b1, b2])"
    by (simp add: total_acc_triple)
  then have xb: "0 < fst (posRadius b')"
    by (simp add: b'_def advance_fields b1_def)
  \<comment> \<open>the central body, at \<open>x = 0\<close>, is pulled towards both\<close>
  have "0 < fst (accumulate b2 a' (0, 0, 0))"
    using accumulate_x_strict [OF m(3) m'(1), of "(0, 0, 0)"] xa by (simp add: b2_def)
  also have "\<dots> < fst (accumulate b2 b' (accumulate b2 a' (0, 0, 0)))"
    using m(3) m'(2) xb by (intro accumulate_x_strict) (simp_all add: b2_def)
  finally have "0 < fst (total_acc 2 [a', b', b2])"
    by (simp add: total_acc_triple)
  then have "0 < fst (velocity c')" "0 < fst (posRadius c')"
    by (simp_all add: c'_def advance_fields b2_def)
  then show ?thesis
    by (simp add: step)
qed

lemma fst_vec3_of: "fst (vec3_of p) = fst p"
  by (cases p) (simp add: vec3_of_def)

text \<open>
  C3 as stated (the central body stays fixed at the origin, also through integration
  steps run while the gravity flag is set) fails. The outer loop runs over every element
  of \<^verbatim>\<open>objects\<close>, the central body included: in the state reached from the initial one
  by a G key press, one frame gives the central body a velocity with a positive x
  component and moves it off the origin.
\<close>

theorem attractor_is_integrated:
  "vec3_of (posRadius (objects state_init ! 2)) = (0, 0, 0)
   \<and> velocity (objects state_init ! 2) = (0, 0, 0)
   \<and> g_gravity (handle_event (KeyEvent GLFW_KEY_G 0 GLFW_PRESS 0) state_init)
   \<and> velocity (objects (frame (handle_event (KeyEvent GLFW_KEY_G 0 GLFW_PRESS 0) state_init)) ! 2)
        \<noteq> (0, 0, 0)
   \<and> vec3_of (posRadius (objects (frame (handle_event (KeyEvent GLFW_KEY_G 0 GLFW_PRESS 0) state_init)) ! 2))
        \<noteq> (0, 0, 0)"
proof -
  let ?s = "handle_event (KeyEvent GLFW_KEY_G 0 GLFW_PRESS 0) state_init"
  have s: "g_gravity ?s" "objects ?s = objects_init"
    by (simp_all add: processKey_def state_init_def GLFW_PRESS_def)
  then have f: "objects (frame ?s) = gravity_step objects_init"
    by (simp add: frame_def)
  have "fst (velocity (gravity_step objects_init ! 2)) \<noteq> fst ((0, 0, 0) :: vec3)"
    and "fst (vec3_of (posRadius (gravity_step objects_init ! 2))) \<noteq> fst ((0, 0, 0) :: vec3)"
    using attractor_leaves_origin_x
    by (simp_all add: fst_vec3_of)
  then have "velocity (gravity_step objects_init ! 2) \<noteq> (0, 0, 0)"
    and "vec3_of (posRadius (gravity_step objects_init ! 2)) \<noteq> (0, 0, 0)"
    by metis+
  with s(1) show ?thesis
    unfolding f by (simp add: state_init_def objects_init_def vec3_of_def)
qed

text \<open>
  C3, amended: the central body is initialised at the origin, at rest, and stays there
  as long as no integration step runs: no input event changes the bodies, and a frame
  with the gravity flag clear leaves them as they are. A frame with the flag set replaces
  the bodies by the result of the integration step, which treats the central body like
  every other one: applied to the initial scene, it gives the central body a velocity
  and a position with a positive x component.
\<close>

theorem attractor_fixed_without_gravity:
  "vec3_of (posRadius (objects state_init ! 2)) = (0, 0, 0)
   \<and> velocity (objects state_init ! 2) = (0, 0, 0)
   \<and> objects (handle_event e s) = objects s
   \<and> (\<not> g_gravity s \<longrightarrow> objects (frame s) = objects s)
   \<and> (g_gravity s \<longrightarrow> objects (frame s) = gravity_step (objects s))
   \<and> 0 < fst (velocity (gravity_step (objects state_init) ! 2))
   \<and> 0 < fst (posRadius (gravity_step (objects state_init) ! 2))"
proof -
  have "objects (handle_event e s) = objects s"
    by (cases e) (simp_all add: processMouseButton_def processKey_def Let_def)
  moreover have "objects state_init = objects_init"
    by (simp add: state_init_def)
  ultimately show ?thesis
    using attractor_leaves_origin_x
    by (simp add: frame_def objects_init_def vec3_of_def)
qed

text \<open>An instance: a scroll event and a frame in the initial state, where the flag is clear.\<close>

theorem attractor_fixed_without_gravity_witness:
  "\<not> g_gravity (handle_event (ScrollEvent 0 1) state_init)
   \<and> vec3_of (posRadius (objects (frame (handle_event (ScrollEvent 0 1) state_init)) ! 2)) = (0, 0, 0)
   \<and> velocity (objects (frame (handle_event (ScrollEvent 0 1) state_init)) ! 2) = (0, 0, 0)"
proof -
  have g: "\<not> g_gravity (handle_event (ScrollEvent 0 1) state_init)"
    by (simp add: state_init_def)
  from attractor_fixed_without_gravity [of "ScrollEvent 0 1" state_init]
  have "objects (handle_event (ScrollEvent 0 1) state_init) = objects state_init"
    and start: "vec3_of (posRadius (objects state_init ! 2)) = (0, 0, 0)"
      "velocity (objects state_init ! 2) = (0, 0, 0)"
    by simp_all
  moreover from attractor_fixed_without_gravity [of "ScrollEvent 0 1" "handle_event (ScrollEvent 0 1) state_init"] g
  have "objects (frame (handle_event (ScrollEvent 0 1) state_init))
      = objects (handle_event (ScrollEvent 0 1) state_init)"
    by blast
  ultimately show ?thesis
    using g by simp
qed

end
